theory Spec2Isabelle
  imports Complex_Main "HOL-Library.Product_Lexorder" "HOL-Library.List_Lexorder"
    "HOL-Library.Char_ord" "HOL-Library.Multiset" "HOL-Library.AList"
begin

section \<open>AMR fleet manager: baseline dispatch, fitness, GA, simulation engine\<close>

text \<open>
  Conventions of the embedding.
  \<^item> Python \<open>float\<close> values are modelled as \<open>real\<close>: arithmetic is exact, there is
    no rounding, no infinity and no NaN. \<open>math.hypot\<close> is the Euclidean norm.
  \<^item> Python \<open>int\<close> values are \<open>int\<close>; strings are \<open>string\<close>, ordered
    lexicographically by character code as Python orders them.
  \<^item> A \<open>dict\<close> is an association list in insertion order; \<open>values()\<close> is
    \<open>map snd\<close>.
  \<^item> \<open>list.sort\<close> and \<open>sorted\<close> are stable, as \<open>sort_key\<close> is.
  \<^item> Record fields carry a prefix naming the service they belong to, since the three
    services each have their own robot and job types: \<open>dj_\<close>/\<open>dr_\<close> for the
    dispatcher's dictionaries, \<open>oj_\<close>/\<open>or_\<close> for the optimizer's schemas,
    \<open>j_\<close>/\<open>r_\<close> for the simulation entities.
\<close>

subsection \<open>Shared vocabulary\<close>

text \<open>The lifecycle states (the \<open>Literal\<close> types of sim/entities.py and of the
  optimizer's schemas.py).\<close>

datatype robot_state = Idle | Moving_to_pickup | Moving_to_dropoff | Charging

datatype job_state = Pending | Unassigned | Assigned | In_progress | Completed | Failed

text \<open>The exceptions the modelled code can raise.\<close>

datatype py_error = IndexError | ValueError string

text \<open>\<open>_distance\<close>: \<open>hypot(ax - bx, ay - by)\<close>.\<close>

definition distance :: "real \<Rightarrow> real \<Rightarrow> real \<Rightarrow> real \<Rightarrow> real" where
  "distance ax ay bx by = sqrt ((ax - bx)\<^sup>2 + (ay - by)\<^sup>2)"

text \<open>\<open>d[k] = v\<close> on a dictionary keeps the position of an existing key and appends
  a new one; \<open>dict(pairs)\<close> inserts the pairs in order.\<close>

definition dict_of_pairs :: "('k \<times> 'v) list \<Rightarrow> ('k \<times> 'v) list" where
  "dict_of_pairs ps = fold (\<lambda>(k, v) d. AList.update k v d) ps []"

subsection \<open>Dispatcher: baseline heuristic (dispatcher-worker-py/app/baseline.py)\<close>

text \<open>The job and robot dictionaries the dispatcher keeps (main.py builds them with
  exactly these keys).\<close>

record d_job =
  dj_id :: string
  dj_pickup_x :: real
  dj_pickup_y :: real
  dj_dropoff_x :: real
  dj_dropoff_y :: real
  dj_deadline_ts :: int
  dj_priority :: int
  dj_state :: string

record d_robot =
  dr_id :: int
  dr_x :: real
  dr_y :: real
  dr_speed :: real
  dr_battery :: real
  dr_state :: string
  dr_current_job_id :: "string option"
  dr_sim_time_s :: int

record assignment =
  a_job_id :: string
  a_robot_id :: int
  a_reason :: string

definition job_sort_key :: "d_job \<Rightarrow> int \<times> int \<times> string" where
  "job_sort_key j = (dj_deadline_ts j, - dj_priority j, dj_id j)"

definition assignment_sort_key :: "assignment \<Rightarrow> string \<times> int" where
  "assignment_sort_key a = (a_job_id a, a_robot_id a)"

definition pending_jobs_of :: "(string \<times> d_job) list \<Rightarrow> string set \<Rightarrow> d_job list" where
  "pending_jobs_of jobs already_assigned =
     filter (\<lambda>j. dj_state j \<in> {''pending'', ''unassigned''} \<and> dj_id j \<notin> already_assigned)
       (map snd jobs)"

text \<open>Lines 32-45: the battery-filtered idle robots, rebuilt without the battery filter
  when the filter leaves none and there are pending jobs.\<close>

definition idle_robots_of ::
  "(int \<times> d_robot) list \<Rightarrow> d_job list \<Rightarrow> int set \<Rightarrow> real \<Rightarrow> d_robot list" where
  "idle_robots_of robots pending_jobs blocked_robots battery_threshold =
     (let idle_robots =
            filter (\<lambda>r. dr_state r = ''idle'' \<and> dr_id r \<notin> blocked_robots
                         \<and> dr_battery r \<ge> battery_threshold) (map snd robots)
      in if idle_robots = [] \<and> pending_jobs \<noteq> []
         then filter (\<lambda>r. dr_state r = ''idle'' \<and> dr_id r \<notin> blocked_robots) (map snd robots)
         else idle_robots)"

text \<open>The inner loop over the idle robots. \<open>None\<close> is the initial pair
  \<open>best_robot = None, best_distance = inf\<close>: every real distance is below infinity.\<close>

fun nearest_loop ::
  "d_job \<Rightarrow> int set \<Rightarrow> d_robot list \<Rightarrow> (real \<times> d_robot) option \<Rightarrow> (real \<times> d_robot) option" where
  "nearest_loop job used_robots [] best = best"
| "nearest_loop job used_robots (robot # rest) best =
     (let robot_id = dr_id robot in
      if robot_id \<in> used_robots then nearest_loop job used_robots rest best
      else
        let d = distance (dr_x robot) (dr_y robot) (dj_pickup_x job) (dj_pickup_y job) in
        (case best of
           None \<Rightarrow> nearest_loop job used_robots rest (Some (d, robot))
         | Some (best_distance, best_robot) \<Rightarrow>
             if d < best_distance \<or> (d = best_distance \<and> robot_id < dr_id best_robot)
             then nearest_loop job used_robots rest (Some (d, robot))
             else nearest_loop job used_robots rest best))"

text \<open>The outer loop over the sorted pending jobs.\<close>

fun assign_loop ::
  "d_robot list \<Rightarrow> d_job list \<Rightarrow> int set \<Rightarrow> assignment list \<Rightarrow> assignment list" where
  "assign_loop idle_robots [] used_robots assignments = assignments"
| "assign_loop idle_robots (job # rest) used_robots assignments =
     (case nearest_loop job used_robots idle_robots None of
        None \<Rightarrow> assign_loop idle_robots rest used_robots assignments
      | Some (best_distance, best_robot) \<Rightarrow>
          assign_loop idle_robots rest (insert (dr_id best_robot) used_robots)
            (assignments @ [\<lparr>a_job_id = dj_id job, a_robot_id = dr_id best_robot,
                             a_reason = ''baseline_edf_nearest''\<rparr>]))"

definition compute_baseline_assignments ::
  "(int \<times> d_robot) list \<Rightarrow> (string \<times> d_job) list \<Rightarrow> string set \<Rightarrow> int set \<Rightarrow> real
     \<Rightarrow> assignment list" where
  "compute_baseline_assignments robots jobs already_assigned blocked_robots battery_threshold =
     (let pending_jobs = pending_jobs_of jobs already_assigned;
          idle_robots = idle_robots_of robots pending_jobs blocked_robots battery_threshold;
          pending_jobs = sort_key job_sort_key pending_jobs;
          idle_robots = sort_key dr_id idle_robots;
          assignments = assign_loop idle_robots pending_jobs {} []
      in sort_key assignment_sort_key assignments)"

subsubsection \<open>The heuristic as the specification words it\<close>

text \<open>The definitions below follow the wording of the specification, not the code:
  candidate jobs and robots as filtered, sorted lists, and the greedy choice as the
  minimum of (distance to the pickup, robot id) over the not-yet-used candidates.\<close>

definition nearest_key :: "d_job \<Rightarrow> d_robot \<Rightarrow> real \<times> int" where
  "nearest_key job r =
     (distance (dr_x r) (dr_y r) (dj_pickup_x job) (dj_pickup_y job), dr_id r)"

fun edf_nearest_spec :: "d_robot list \<Rightarrow> d_job list \<Rightarrow> int set \<Rightarrow> assignment list" where
  "edf_nearest_spec cands [] used = []"
| "edf_nearest_spec cands (job # rest) used =
     (case filter (\<lambda>r. dr_id r \<notin> used) cands of
        [] \<Rightarrow> edf_nearest_spec cands rest used
      | r0 # free \<Rightarrow>
          (let r = arg_min_list (nearest_key job) (r0 # free)
           in \<lparr>a_job_id = dj_id job, a_robot_id = dr_id r,
                a_reason = ''baseline_edf_nearest''\<rparr>
              # edf_nearest_spec cands rest (insert (dr_id r) used)))"

definition candidate_jobs_spec :: "(string \<times> d_job) list \<Rightarrow> string set \<Rightarrow> d_job list" where
  "candidate_jobs_spec jobs already_assigned =
     sort_key (\<lambda>j. (dj_deadline_ts j, - dj_priority j, dj_id j))
       [j \<leftarrow> map snd jobs.
          (dj_state j = ''pending'' \<or> dj_state j = ''unassigned'')
          \<and> dj_id j \<notin> already_assigned]"

definition battery_candidates_spec ::
  "(int \<times> d_robot) list \<Rightarrow> int set \<Rightarrow> real \<Rightarrow> d_robot list" where
  "battery_candidates_spec robots blocked threshold =
     sort_key dr_id
       [r \<leftarrow> map snd robots.
          dr_state r = ''idle'' \<and> dr_id r \<notin> blocked \<and> threshold \<le> dr_battery r]"

definition unfiltered_candidates_spec :: "(int \<times> d_robot) list \<Rightarrow> int set \<Rightarrow> d_robot list" where
  "unfiltered_candidates_spec robots blocked =
     sort_key dr_id [r \<leftarrow> map snd robots. dr_state r = ''idle'' \<and> dr_id r \<notin> blocked]"


text \<open>The heuristic with the battery filter dropped when it leaves no candidate robot
  while candidate jobs exist.\<close>

definition baseline_spec_amended ::
  "(int \<times> d_robot) list \<Rightarrow> (string \<times> d_job) list \<Rightarrow> string set \<Rightarrow> int set \<Rightarrow> real
     \<Rightarrow> assignment list" where
  "baseline_spec_amended robots jobs already_assigned blocked threshold =
     sort_key (\<lambda>a. (a_job_id a, a_robot_id a))
       (edf_nearest_spec
          (if battery_candidates_spec robots blocked threshold = []
              \<and> candidate_jobs_spec jobs already_assigned \<noteq> []
           then unfiltered_candidates_spec robots blocked
           else battery_candidates_spec robots blocked threshold)
          (candidate_jobs_spec jobs already_assigned) {})"

subsubsection \<open>The inputs of app/tests/test_baseline.py\<close>

definition idle_robot_at :: "int \<Rightarrow> real \<Rightarrow> real \<Rightarrow> real \<Rightarrow> d_robot" where
  "idle_robot_at i x y b =
     \<lparr>dr_id = i, dr_x = x, dr_y = y, dr_speed = 1, dr_battery = b, dr_state = ''idle'',
      dr_current_job_id = None, dr_sim_time_s = 0\<rparr>"

definition pending_job ::
  "string \<Rightarrow> real \<Rightarrow> real \<Rightarrow> real \<Rightarrow> real \<Rightarrow> int \<Rightarrow> int \<Rightarrow> d_job" where
  "pending_job i px py dx dy dl pr =
     \<lparr>dj_id = i, dj_pickup_x = px, dj_pickup_y = py, dj_dropoff_x = dx, dj_dropoff_y = dy,
      dj_deadline_ts = dl, dj_priority = pr, dj_state = ''pending''\<rparr>"

definition two_robots :: "(int \<times> d_robot) list" where
  "two_robots = [(1, idle_robot_at 1 0 0 80), (2, idle_robot_at 2 10 10 80)]"

definition two_jobs :: "(string \<times> d_job) list" where
  "two_jobs = [(''j1'', pending_job ''j1'' 1 1 2 2 10 3),
               (''j2'', pending_job ''j2'' 9 9 8 8 20 2)]"

definition low_battery_robot :: "(int \<times> d_robot) list" where
  "low_battery_robot = [(1, idle_robot_at 1 0 0 5)]"

definition one_job :: "(string \<times> d_job) list" where
  "one_job = [(''job_1'', pending_job ''job_1'' 1 1 2 2 10 1)]"

subsection \<open>Optimizer: fitness evaluation (optimizer-service-py/app/ga/fitness.py)\<close>

text \<open>The request models of schemas.py.\<close>

record o_robot =
  or_id :: int
  or_x :: real
  or_y :: real
  or_speed :: real
  or_battery :: real
  or_state :: robot_state
  or_current_job_id :: "string option"

record o_job =
  oj_id :: string
  oj_pickup_x :: real
  oj_pickup_y :: real
  oj_dropoff_x :: real
  oj_dropoff_y :: real
  oj_deadline_ts :: int
  oj_priority :: int
  oj_state :: job_state

record fitness_result =
  fr_score :: real
  fr_job_scores :: "(string \<times> real) list"

definition sorted_jobs :: "o_job list \<Rightarrow> o_job list" where
  "sorted_jobs jobs = sort_key (\<lambda>j. (oj_deadline_ts j, - oj_priority j, oj_id j)) jobs"

text \<open>The loop state of \<open>evaluate_chromosome\<close>: the four per-robot lists, the running
  total and the per-job dictionary.\<close>

record eval_state =
  robot_time :: "real list"
  robot_pos :: "(real \<times> real) list"
  robot_battery :: "real list"
  robot_job_count :: "nat list"
  total_score :: real
  job_scores :: "(string \<times> real) list"

text \<open>The local variables of one iteration of the loop (lines 57-84).\<close>

record job_terms =
  jt_robot_idx :: nat
  jt_distance :: real
  jt_completion_time :: real
  jt_lateness :: real
  jt_battery_after :: real
  jt_battery_penalty :: real
  jt_load_penalty :: real
  jt_job_penalty :: real

definition job_terms_of :: "o_robot list \<Rightarrow> int \<Rightarrow> int \<Rightarrow> o_job \<Rightarrow> eval_state \<Rightarrow> job_terms" where
  "job_terms_of robots service_time_s gene job st =
     (let assigned_robot_idx = nat (gene mod int (length robots));
          (rx, ry) = robot_pos st ! assigned_robot_idx;
          travel_to_pickup = distance rx ry (oj_pickup_x job) (oj_pickup_y job);
          travel_to_dropoff =
            distance (oj_pickup_x job) (oj_pickup_y job) (oj_dropoff_x job) (oj_dropoff_y job);
          dist = travel_to_pickup + travel_to_dropoff;
          speed = max (or_speed (robots ! assigned_robot_idx)) 0.1;
          travel_time = dist / speed;
          completion_time =
            robot_time st ! assigned_robot_idx + travel_time + of_int (2 * service_time_s);
          lateness = max 0 (completion_time - of_int (oj_deadline_ts job));
          battery_after = robot_battery st ! assigned_robot_idx - dist * 0.1;
          battery_penalty =
            (if battery_after < 0 then 500 + \<bar>battery_after\<bar> * 100
             else if battery_after < 10 then 200 else 0);
          load_penalty = real ((robot_job_count st ! assigned_robot_idx)\<^sup>2) * 30;
          job_penalty =
            lateness * 1000 + dist * 2 + of_int (6 - oj_priority job) * 3
            + battery_penalty + load_penalty
      in \<lparr>jt_robot_idx = assigned_robot_idx, jt_distance = dist,
          jt_completion_time = completion_time, jt_lateness = lateness,
          jt_battery_after = battery_after, jt_battery_penalty = battery_penalty,
          jt_load_penalty = load_penalty, jt_job_penalty = job_penalty\<rparr>)"

text \<open>The updates at the end of the iteration (lines 85-91).\<close>

definition eval_step :: "o_robot list \<Rightarrow> int \<Rightarrow> int \<Rightarrow> o_job \<Rightarrow> eval_state \<Rightarrow> eval_state" where
  "eval_step robots service_time_s gene job st =
     (let t = job_terms_of robots service_time_s gene job st;
          i = jt_robot_idx t
      in \<lparr>robot_time = (robot_time st)[i := jt_completion_time t],
          robot_pos = (robot_pos st)[i := (oj_dropoff_x job, oj_dropoff_y job)],
          robot_battery = (robot_battery st)[i := max 0 (jt_battery_after t)],
          robot_job_count = (robot_job_count st)[i := robot_job_count st ! i + 1],
          total_score = total_score st + jt_job_penalty t,
          job_scores = AList.update (oj_id job) (jt_job_penalty t) (job_scores st)\<rparr>)"

text \<open>\<open>for idx, job in enumerate(ordered_jobs)\<close>; \<open>chromosome[idx]\<close> raises
  IndexError past the end of the chromosome.\<close>

fun eval_loop ::
  "int list \<Rightarrow> o_robot list \<Rightarrow> int \<Rightarrow> nat \<Rightarrow> o_job list \<Rightarrow> eval_state
     \<Rightarrow> py_error + eval_state" where
  "eval_loop chromosome robots service_time_s idx [] st = Inr st"
| "eval_loop chromosome robots service_time_s idx (job # rest) st =
     (if idx \<ge> length chromosome then Inl IndexError
      else eval_loop chromosome robots service_time_s (idx + 1) rest
             (eval_step robots service_time_s (chromosome ! idx) job st))"

definition initial_eval_state :: "o_robot list \<Rightarrow> eval_state" where
  "initial_eval_state robots =
     \<lparr>robot_time = map (\<lambda>_. 0) robots,
      robot_pos = map (\<lambda>r. (or_x r, or_y r)) robots,
      robot_battery = map or_battery robots,
      robot_job_count = map (\<lambda>_. 0) robots,
      total_score = 0,
      job_scores = []\<rparr>"

definition evaluate_chromosome ::
  "int list \<Rightarrow> o_robot list \<Rightarrow> o_job list \<Rightarrow> int \<Rightarrow> py_error + fitness_result" where
  "evaluate_chromosome chromosome robots jobs service_time_s =
     (if jobs = [] then Inr \<lparr>fr_score = 0, fr_job_scores = []\<rparr>
      else if robots = [] then
        Inr \<lparr>fr_score = 1000000000,
             fr_job_scores = dict_of_pairs (map (\<lambda>job. (oj_id job, 1000000000)) jobs)\<rparr>
      else
        (case eval_loop chromosome robots service_time_s 0 (sorted_jobs jobs)
                (initial_eval_state robots) of
           Inl e \<Rightarrow> Inl e
         | Inr st \<Rightarrow> Inr \<lparr>fr_score = total_score st, fr_job_scores = job_scores st\<rparr>))"

subsubsection \<open>The score as the specification words it\<close>

text \<open>What the evaluation knows of one robot: its time, position, battery and the
  number of jobs it has been given so far.\<close>

record robot_view =
  v_time :: real
  v_x :: real
  v_y :: real
  v_battery :: real
  v_jobs :: nat

definition travel_spec :: "robot_view \<Rightarrow> o_job \<Rightarrow> real" where
  "travel_spec v job =
     sqrt ((v_x v - oj_pickup_x job)\<^sup>2 + (v_y v - oj_pickup_y job)\<^sup>2)
     + sqrt ((oj_pickup_x job - oj_dropoff_x job)\<^sup>2 + (oj_pickup_y job - oj_dropoff_y job)\<^sup>2)"

definition completion_spec :: "robot_view \<Rightarrow> real \<Rightarrow> int \<Rightarrow> o_job \<Rightarrow> real" where
  "completion_spec v speed service_time_s job =
     v_time v + travel_spec v job / max speed 0.1 + 2 * of_int service_time_s"

definition lateness_spec :: "robot_view \<Rightarrow> real \<Rightarrow> int \<Rightarrow> o_job \<Rightarrow> real" where
  "lateness_spec v speed service_time_s job =
     max 0 (completion_spec v speed service_time_s job - of_int (oj_deadline_ts job))"

definition battery_after_spec :: "robot_view \<Rightarrow> o_job \<Rightarrow> real" where
  "battery_after_spec v job = v_battery v - 0.1 * travel_spec v job"

definition battery_penalty_spec :: "real \<Rightarrow> real" where
  "battery_penalty_spec battery_after =
     (if battery_after < 0 then 500 + 100 * \<bar>battery_after\<bar>
      else if battery_after < 10 then 200 else 0)"

definition job_score_spec :: "robot_view \<Rightarrow> real \<Rightarrow> int \<Rightarrow> o_job \<Rightarrow> real" where
  "job_score_spec v speed service_time_s job =
     1000 * lateness_spec v speed service_time_s job
     + 2 * travel_spec v job
     + 3 * (6 - of_int (oj_priority job))
     + battery_penalty_spec (battery_after_spec v job)
     + 30 * (real (v_jobs v))\<^sup>2"

definition view_after :: "robot_view \<Rightarrow> real \<Rightarrow> int \<Rightarrow> o_job \<Rightarrow> robot_view" where
  "view_after v speed service_time_s job =
     \<lparr>v_time = completion_spec v speed service_time_s job,
      v_x = oj_dropoff_x job, v_y = oj_dropoff_y job,
      v_battery = max 0 (battery_after_spec v job),
      v_jobs = v_jobs v + 1\<rparr>"

text \<open>The scores of the jobs, in order, gene \<open>k\<close> naming (modulo the number of robots)
  the robot of job \<open>k\<close>; \<open>V\<close> gives each robot's current view.\<close>

fun scores_spec ::
  "(nat \<Rightarrow> robot_view) \<Rightarrow> o_robot list \<Rightarrow> int \<Rightarrow> int list \<Rightarrow> o_job list \<Rightarrow> real list" where
  "scores_spec V robots service_time_s (gene # genes) (job # rest) =
     (let i = nat (gene mod int (length robots));
          speed = or_speed (robots ! i)
      in job_score_spec (V i) speed service_time_s job
         # scores_spec (V(i := view_after (V i) speed service_time_s job))
             robots service_time_s genes rest)"
| "scores_spec V robots service_time_s genes jobs = []"

definition initial_view :: "o_robot list \<Rightarrow> nat \<Rightarrow> robot_view" where
  "initial_view robots i =
     \<lparr>v_time = 0, v_x = or_x (robots ! i), v_y = or_y (robots ! i),
      v_battery = or_battery (robots ! i), v_jobs = 0\<rparr>"

text \<open>The four parallel lists of the loop state hold, robot by robot, the views of the
  specification.\<close>

definition views_rel :: "nat \<Rightarrow> eval_state \<Rightarrow> (nat \<Rightarrow> robot_view) \<Rightarrow> bool" where
  "views_rel n st V \<longleftrightarrow>
     length (robot_time st) = n \<and> length (robot_pos st) = n \<and>
     length (robot_battery st) = n \<and> length (robot_job_count st) = n \<and>
     (\<forall>i < n. robot_time st ! i = v_time (V i) \<and> robot_pos st ! i = (v_x (V i), v_y (V i)) \<and>
        robot_battery st ! i = v_battery (V i) \<and> robot_job_count st ! i = v_jobs (V i))"


subsubsection \<open>The inputs of app/tests/test_fitness.py\<close>




subsection \<open>Simulation engine (sim-runner-py/app/sim/entities.py, engine.py)\<close>

record robot =
  r_id :: int
  r_x :: real
  r_y :: real
  r_speed :: real
  r_battery :: real
  r_state :: robot_state
  r_current_job_id :: "string option"
  r_target_x :: "real option"
  r_target_y :: "real option"
  r_phase_remaining_s :: real
  r_distance_traveled :: real

record job =
  j_id :: string
  j_pickup_x :: real
  j_pickup_y :: real
  j_dropoff_x :: real
  j_dropoff_y :: real
  j_deadline_ts :: int
  j_priority :: int
  j_state :: job_state
  j_assigned_robot_id :: "int option"
  j_created_sim_ts :: int
  j_started_sim_ts :: "int option"
  j_completed_sim_ts :: "int option"
  j_lateness_s :: real

text \<open>engine.py's own \<open>Assignment\<close> dataclass.\<close>

record sim_assignment =
  sa_job_id :: string
  sa_robot_id :: int

text \<open>The payload of a robot.updated event (\<open>_robot_payload\<close>).\<close>

record robot_payload =
  p_robot_id :: int
  p_state :: robot_state
  p_sim_time_s :: int
  p_x :: real
  p_y :: real
  p_speed :: real
  p_battery :: real
  p_current_job_id :: "string option"

text \<open>The engine: the robots and jobs of its \<open>SimulationState\<close> (the objects that
  \<open>robots_by_id\<close> and \<open>jobs_by_id\<close> alias), the tick counter, the parameters, the
  four bookkeeping dictionaries, and the payloads handed to \<open>robot_update_sink\<close> so far.\<close>

record engine =
  e_robots :: "robot list"
  e_jobs :: "job list"
  e_tick :: int
  e_tick_hz :: int
  e_service_time_s :: real
  e_max_sim_seconds :: int
  e_emit_position_updates :: bool
  e_charge_rate :: real
  e_charge_resume_threshold :: real
  e_last_emitted_state :: "int \<rightharpoonup> robot_state"
  e_last_position_emit_sim_s :: "int \<rightharpoonup> int"
  e_dropoff_service_remaining :: "int \<rightharpoonup> real"
  e_resume_state :: "int \<rightharpoonup> robot_state"
  e_sink :: "robot_payload list"

text \<open>\<open>self.dt = 1.0 / tick_hz\<close>.\<close>

definition dt :: "engine \<Rightarrow> real" where
  "dt e = 1 / real_of_int (e_tick_hz e)"

text \<open>\<open>{x.id: x for x in xs}.get(k)\<close>: the last element with that id, as an index
  into the list whose objects the dictionary aliases.\<close>

fun last_index :: "('a \<Rightarrow> bool) \<Rightarrow> 'a list \<Rightarrow> nat option" where
  "last_index P [] = None"
| "last_index P (x # xs) =
     (case last_index P xs of
        Some i \<Rightarrow> Some (Suc i)
      | None \<Rightarrow> if P x then Some 0 else None)"

definition robots_by_id :: "engine \<Rightarrow> int \<Rightarrow> nat option" where
  "robots_by_id e k = last_index (\<lambda>r. r_id r = k) (e_robots e)"

definition jobs_by_id :: "engine \<Rightarrow> string \<Rightarrow> nat option" where
  "jobs_by_id e k = last_index (\<lambda>j. j_id j = k) (e_jobs e)"

definition current_sim_time_s :: "engine \<Rightarrow> int" where
  "current_sim_time_s e = e_tick e div e_tick_hz e"

text \<open>\<open>round(x, 3)\<close> on exact values: to the nearest multiple of 1/1000, ties to the
  even one.\<close>

definition round_half_even :: "real \<Rightarrow> int" where
  "round_half_even x =
     (let f = \<lfloor>x\<rfloor>; d = x - of_int f
      in if d < 1/2 then f else if d > 1/2 then f + 1 else if even f then f else f + 1)"

definition round3 :: "real \<Rightarrow> real" where
  "round3 x = of_int (round_half_even (x * 1000)) / 1000"

definition robot_payload_of :: "robot \<Rightarrow> int \<Rightarrow> robot_payload" where
  "robot_payload_of robot sim_time_s =
     \<lparr>p_robot_id = r_id robot, p_state = r_state robot, p_sim_time_s = sim_time_s,
      p_x = round3 (r_x robot), p_y = round3 (r_y robot), p_speed = r_speed robot,
      p_battery = round3 (r_battery robot), p_current_job_id = r_current_job_id robot\<rparr>"

definition emit_robot_updated :: "engine \<Rightarrow> robot \<Rightarrow> int \<Rightarrow> bool \<Rightarrow> engine" where
  "emit_robot_updated e robot sim_time_s force =
     (if force then
        e\<lparr>e_sink := e_sink e @ [robot_payload_of robot sim_time_s],
          e_last_emitted_state := (e_last_emitted_state e)(r_id robot \<mapsto> r_state robot),
          e_last_position_emit_sim_s :=
            (e_last_position_emit_sim_s e)(r_id robot \<mapsto> sim_time_s)\<rparr>
      else
        (case e_last_position_emit_sim_s e (r_id robot) of
           Some last_emit \<Rightarrow>
             if sim_time_s \<le> last_emit then e
             else e\<lparr>e_sink := e_sink e @ [robot_payload_of robot sim_time_s],
                    e_last_position_emit_sim_s :=
                      (e_last_position_emit_sim_s e)(r_id robot \<mapsto> sim_time_s)\<rparr>
         | None \<Rightarrow>
             e\<lparr>e_sink := e_sink e @ [robot_payload_of robot sim_time_s],
               e_last_position_emit_sim_s :=
                 (e_last_position_emit_sim_s e)(r_id robot \<mapsto> sim_time_s)\<rparr>))"

definition apply_assignment :: "engine \<Rightarrow> sim_assignment \<Rightarrow> bool \<times> engine" where
  "apply_assignment e assignment =
     (case robots_by_id e (sa_robot_id assignment) of
        None \<Rightarrow> (False, e)
      | Some ri \<Rightarrow>
          (case jobs_by_id e (sa_job_id assignment) of
             None \<Rightarrow> (False, e)
           | Some ji \<Rightarrow>
               (let robot = e_robots e ! ri; job = e_jobs e ! ji in
                if r_state robot \<noteq> Idle then (False, e)
                else if j_state job \<notin> {Pending, Unassigned} then (False, e)
                else
                  let job' = job\<lparr>j_state := Assigned,
                                 j_assigned_robot_id := Some (r_id robot),
                                 j_started_sim_ts := Some (current_sim_time_s e)\<rparr>;
                      robot' = robot\<lparr>r_current_job_id := Some (j_id job'),
                                     r_target_x := Some (j_pickup_x job'),
                                     r_target_y := Some (j_pickup_y job'),
                                     r_phase_remaining_s := 0,
                                     r_state := Moving_to_pickup\<rparr>;
                      e' = e\<lparr>e_jobs := (e_jobs e)[ji := job'],
                             e_robots := (e_robots e)[ri := robot']\<rparr>
                  in (True, emit_robot_updated e' robot' (current_sim_time_s e') True))))"

text \<open>\<open>_advance_robot\<close>, lines 186-236, for a robot with a known job (at index
  \<open>ji\<close>) and a target \<open>(tx, ty)\<close>. First the kinematics (lines 186-197): the robot
  after moving towards the target and paying for the distance.\<close>

definition distance_to_target_of :: "robot \<Rightarrow> real \<Rightarrow> real \<Rightarrow> real" where
  "distance_to_target_of robot tx ty = sqrt ((tx - r_x robot)\<^sup>2 + (ty - r_y robot)\<^sup>2)"

definition moved_robot :: "engine \<Rightarrow> robot \<Rightarrow> real \<Rightarrow> real \<Rightarrow> robot" where
  "moved_robot e robot tx ty =
     (let dx = tx - r_x robot;
          dy = ty - r_y robot;
          distance_to_target = distance_to_target_of robot tx ty;
          step_distance = r_speed robot * dt e
      in if distance_to_target > 0 then
           let travel = min distance_to_target step_distance;
               ratio = travel / distance_to_target
           in robot\<lparr>r_x := r_x robot + dx * ratio,
                    r_y := r_y robot + dy * ratio,
                    r_distance_traveled := r_distance_traveled robot + travel,
                    r_battery := max 0 (r_battery robot - travel * 0.1)\<rparr>
         else robot)"

text \<open>Lines 208-219: the pickup service countdown of an arrived robot.\<close>

definition serve_pickup :: "engine \<Rightarrow> nat \<Rightarrow> nat \<Rightarrow> robot \<Rightarrow> engine" where
  "serve_pickup e i ji robot1 =
     (let job = e_jobs e ! ji;
          phase0 = (if r_phase_remaining_s robot1 \<le> 0 then e_service_time_s e
                    else r_phase_remaining_s robot1);
          phase1 = max 0 (phase0 - dt e)
      in if phase1 > 0 then
           e\<lparr>e_robots := (e_robots e)[i := robot1\<lparr>r_phase_remaining_s := phase1\<rparr>]\<rparr>
         else
           e\<lparr>e_jobs := (e_jobs e)[ji := job\<lparr>j_state := In_progress\<rparr>],
             e_robots := (e_robots e)
               [i := robot1\<lparr>r_phase_remaining_s := 0,
                            r_state := Moving_to_dropoff,
                            r_target_x := Some (j_dropoff_x job),
                            r_target_y := Some (j_dropoff_y job)\<rparr>]\<rparr>)"

text \<open>Lines 221-236: the dropoff service countdown, kept in
  \<open>dropoff_service_remaining\<close>, and the completion of the job.\<close>

definition serve_dropoff :: "engine \<Rightarrow> nat \<Rightarrow> nat \<Rightarrow> robot \<Rightarrow> engine" where
  "serve_dropoff e i ji robot1 =
     (let job = e_jobs e ! ji;
          remaining0 = (case e_dropoff_service_remaining e (r_id robot1) of
                          Some v \<Rightarrow> v | None \<Rightarrow> e_service_time_s e);
          remaining = max 0 (remaining0 - dt e)
      in if remaining > 0 then
           e\<lparr>e_dropoff_service_remaining :=
               (e_dropoff_service_remaining e)(r_id robot1 \<mapsto> remaining),
             e_robots := (e_robots e)[i := robot1]\<rparr>
         else
           (let completion_time = current_sim_time_s e in
            e\<lparr>e_dropoff_service_remaining :=
                (e_dropoff_service_remaining e)(r_id robot1 := None),
              e_jobs := (e_jobs e)
                [ji := job\<lparr>j_state := Completed,
                           j_completed_sim_ts := Some completion_time,
                           j_lateness_s :=
                             of_int (max 0 (completion_time - j_deadline_ts job))\<rparr>],
              e_robots := (e_robots e)
                [i := robot1\<lparr>r_state := Idle, r_current_job_id := None,
                             r_target_x := None, r_target_y := None,
                             r_phase_remaining_s := 0\<rparr>]\<rparr>))"

definition advance_moving :: "engine \<Rightarrow> nat \<Rightarrow> nat \<Rightarrow> real \<Rightarrow> real \<Rightarrow> engine" where
  "advance_moving e i ji tx ty =
     (let robot = e_robots e ! i;
          distance_to_target = distance_to_target_of robot tx ty;
          step_distance = r_speed robot * dt e;
          robot1 = moved_robot e robot tx ty
      in if distance_to_target > 0 \<and> r_battery robot1 \<le> 0 then
           e\<lparr>e_resume_state := (e_resume_state e)(r_id robot1 \<mapsto> r_state robot1),
             e_robots := (e_robots e)[i := robot1\<lparr>r_state := Charging\<rparr>]\<rparr>
         else if \<not> distance_to_target \<le> step_distance + 1 / 10 ^ 9 then
           e\<lparr>e_robots := (e_robots e)[i := robot1]\<rparr>
         else if r_state robot1 = Moving_to_pickup then serve_pickup e i ji robot1
         else if r_state robot1 = Moving_to_dropoff then serve_dropoff e i ji robot1
         else e\<lparr>e_robots := (e_robots e)[i := robot1]\<rparr>)"

text \<open>\<open>_advance_robot(robot)\<close> for the robot at index \<open>i\<close> of \<open>state.robots\<close>.\<close>

definition advance_robot :: "engine \<Rightarrow> nat \<Rightarrow> engine" where
  "advance_robot e i =
     (let robot = e_robots e ! i in
      if r_state robot = Charging then
        (let battery = min 100 (r_battery robot + e_charge_rate e * dt e) in
         if battery \<ge> e_charge_resume_threshold e then
           e\<lparr>e_resume_state := (e_resume_state e)(r_id robot := None),
             e_robots := (e_robots e)
               [i := robot\<lparr>r_battery := battery,
                           r_state := (case e_resume_state e (r_id robot) of
                                         Some s \<Rightarrow> s | None \<Rightarrow> Idle)\<rparr>]\<rparr>
         else e\<lparr>e_robots := (e_robots e)[i := robot\<lparr>r_battery := battery\<rparr>]\<rparr>)
      else if r_battery robot \<le> 0 \<and> r_state robot \<in> {Moving_to_pickup, Moving_to_dropoff} then
        e\<lparr>e_resume_state := (e_resume_state e)(r_id robot \<mapsto> r_state robot),
          e_robots := (e_robots e)[i := robot\<lparr>r_state := Charging\<rparr>]\<rparr>
      else if r_state robot \<notin> {Moving_to_pickup, Moving_to_dropoff} then e
      else
        (case jobs_by_id e (case r_current_job_id robot of Some k \<Rightarrow> k | None \<Rightarrow> '''') of
           None \<Rightarrow>
             e\<lparr>e_robots := (e_robots e)
                 [i := robot\<lparr>r_state := Idle, r_current_job_id := None, r_target_x := None,
                             r_target_y := None, r_phase_remaining_s := 0\<rparr>]\<rparr>
         | Some ji \<Rightarrow>
             (case r_target_x robot of
                None \<Rightarrow>
                  e\<lparr>e_robots := (e_robots e)
                      [i := robot\<lparr>r_state := Idle, r_current_job_id := None\<rparr>]\<rparr>
              | Some tx \<Rightarrow>
                  (case r_target_y robot of
                     None \<Rightarrow>
                       e\<lparr>e_robots := (e_robots e)
                           [i := robot\<lparr>r_state := Idle, r_current_job_id := None\<rparr>]\<rparr>
                   | Some ty \<Rightarrow> advance_moving e i ji tx ty))))"

text \<open>\<open>step\<close>: the robots are visited in ascending id order (\<open>sorted\<close> is stable),
  each advanced and then reported.\<close>

definition step_robot :: "int \<Rightarrow> nat \<Rightarrow> engine \<Rightarrow> engine" where
  "step_robot sim_time_s i e =
     (let prev_state = r_state (e_robots e ! i);
          e1 = advance_robot e i;
          robot = e_robots e1 ! i
      in if r_state robot \<noteq> prev_state then emit_robot_updated e1 robot sim_time_s True
         else if e_emit_position_updates e1 then emit_robot_updated e1 robot sim_time_s False
         else e1)"

definition step :: "engine \<Rightarrow> engine" where
  "step e =
     (let sim_time_s = current_sim_time_s e;
          order = sort_key (\<lambda>i. r_id (e_robots e ! i)) [0..<length (e_robots e)];
          e1 = fold (step_robot sim_time_s) order e
      in e1\<lparr>e_tick := e_tick e1 + 1\<rparr>)"

subsubsection \<open>Frame predicates\<close>

text \<open>Serving and moving replace the robot at index \<open>i\<close> by a robot of the same id,
  speed and battery as the moved robot, and touch no other robot.\<close>

definition same_body :: "robot \<Rightarrow> robot \<Rightarrow> bool" where
  "same_body r r' \<longleftrightarrow> r_id r' = r_id r \<and> r_speed r' = r_speed r \<and> r_battery r' = r_battery r"

definition replaces_robot :: "engine \<Rightarrow> nat \<Rightarrow> robot \<Rightarrow> engine \<Rightarrow> bool" where
  "replaces_robot e i r e' \<longleftrightarrow>
     length (e_robots e') = length (e_robots e) \<and>
     (\<forall>k. k \<noteq> i \<longrightarrow> e_robots e' ! k = e_robots e ! k) \<and>
     (i < length (e_robots e) \<longrightarrow> same_body r (e_robots e' ! i)) \<and>
     e_tick_hz e' = e_tick_hz e \<and> e_charge_rate e' = e_charge_rate e \<and> e_tick e' = e_tick e"

subsubsection \<open>The assignment precondition as the specification words it\<close>

text \<open>The named robot and job exist, the robot is idle and the job is pending or
  unassigned.\<close>

definition assignable :: "engine \<Rightarrow> sim_assignment \<Rightarrow> bool" where
  "assignable e a =
     (case robots_by_id e (sa_robot_id a) of
        None \<Rightarrow> False
      | Some ri \<Rightarrow>
          (case jobs_by_id e (sa_job_id a) of
             None \<Rightarrow> False
           | Some ji \<Rightarrow> r_state (e_robots e ! ri) = Idle
                        \<and> (j_state (e_jobs e ! ji) = Pending \<or> j_state (e_jobs e ! ji) = Unassigned)))"

subsubsection \<open>The engine of app/tests/test_robot_updated_contract_integration.py\<close>

definition test_robot :: robot where
  "test_robot = \<lparr>r_id = 1, r_x = 0, r_y = 0, r_speed = 1, r_battery = 100, r_state = Idle,
     r_current_job_id = None, r_target_x = None, r_target_y = None,
     r_phase_remaining_s = 0, r_distance_traveled = 0\<rparr>"

definition test_job :: job where
  "test_job = \<lparr>j_id = ''job_1'', j_pickup_x = 1, j_pickup_y = 0, j_dropoff_x = 2,
     j_dropoff_y = 0, j_deadline_ts = 200, j_priority = 3, j_state = Pending,
     j_assigned_robot_id = None, j_created_sim_ts = 0, j_started_sim_ts = None,
     j_completed_sim_ts = None, j_lateness_s = 0\<rparr>"

definition engine_of :: "robot list \<Rightarrow> job list \<Rightarrow> engine" where
  "engine_of robots jobs =
     \<lparr>e_robots = robots, e_jobs = jobs, e_tick = 0, e_tick_hz = 5, e_service_time_s = 1,
      e_max_sim_seconds = 20, e_emit_position_updates = True, e_charge_rate = 5,
      e_charge_resume_threshold = 20, e_last_emitted_state = Map.empty,
      e_last_position_emit_sim_s = Map.empty, e_dropoff_service_remaining = Map.empty,
      e_resume_state = Map.empty, e_sink = []\<rparr>"

definition test_engine :: engine where
  "test_engine = engine_of [test_robot] [test_job]"

text \<open>A robot on its way to a job the engine does not know.\<close>

definition stray_robot :: robot where
  "stray_robot = test_robot\<lparr>r_state := Moving_to_pickup, r_current_job_id := Some ''ghost'',
     r_target_x := Some 1, r_target_y := Some 0\<rparr>"

text \<open>A robot of negative speed on its way to the test job, and a charging robot in an
  engine of negative charge rate.\<close>

definition backward_robot :: robot where
  "backward_robot = test_robot\<lparr>r_speed := - 1, r_state := Moving_to_pickup,
     r_current_job_id := Some ''job_1'', r_target_x := Some 1, r_target_y := Some 0\<rparr>"

definition draining_engine :: engine where
  "draining_engine =
     (engine_of [test_robot\<lparr>r_state := Charging, r_battery := 0\<rparr>] [test_job])
       \<lparr>e_charge_rate := - 5\<rparr>"

subsection \<open>The pseudo-random generator (Python's \<open>random.Random\<close>)\<close>

text \<open>The generator is not code of this repository. It is a parameter of the model: a
  state type \<open>'g\<close>, the seeding constructor, and the two primitive draws of CPython's
  \<open>random.Random\<close>, \<open>random()\<close> and \<open>_randbelow(n)\<close>. The public methods the
  repository calls are defined from them as random.py defines them.\<close>

record 'g py_random =
  rnd_seed :: "int \<Rightarrow> 'g"
  rnd_random :: "'g \<Rightarrow> real \<times> 'g"
  rnd_randbelow :: "nat \<Rightarrow> 'g \<Rightarrow> nat \<times> 'g"

text \<open>\<open>uniform(a, b) = a + (b - a) * random()\<close>.\<close>

definition uniform :: "'g py_random \<Rightarrow> real \<Rightarrow> real \<Rightarrow> 'g \<Rightarrow> real \<times> 'g" where
  "uniform P a b g = (case rnd_random P g of (u, g') \<Rightarrow> (a + (b - a) * u, g'))"

text \<open>\<open>randrange(stop)\<close> and \<open>randrange(start, stop)\<close> raise ValueError on an empty
  range; \<open>randint(a, b) = randrange(a, b + 1)\<close>.\<close>

definition randrange :: "'g py_random \<Rightarrow> int \<Rightarrow> 'g \<Rightarrow> py_error + (int \<times> 'g)" where
  "randrange P stop g =
     (if stop > 0 then (case rnd_randbelow P (nat stop) g of (k, g') \<Rightarrow> Inr (int k, g'))
      else Inl (ValueError ''empty range for randrange()''))"

definition randrange2 :: "'g py_random \<Rightarrow> int \<Rightarrow> int \<Rightarrow> 'g \<Rightarrow> py_error + (int \<times> 'g)" where
  "randrange2 P start stop g =
     (let width = stop - start in
      if width > 0
      then (case rnd_randbelow P (nat width) g of (k, g') \<Rightarrow> Inr (start + int k, g'))
      else Inl (ValueError ''empty range for randrange()''))"

definition randint :: "'g py_random \<Rightarrow> int \<Rightarrow> int \<Rightarrow> 'g \<Rightarrow> py_error + (int \<times> 'g)" where
  "randint P a b g = randrange2 P a (b + 1) g"

subsection \<open>Scenario generation (sim-runner-py/app/settings.py, sim/world.py)\<close>

text \<open>\<open>str(n)\<close> for an integer.\<close>

definition digit_char :: "nat \<Rightarrow> char" where
  "digit_char d = ''0123456789'' ! d"

function string_of_nat :: "nat \<Rightarrow> string" where
  "string_of_nat n =
     (if n < 10 then [digit_char n] else string_of_nat (n div 10) @ [digit_char (n mod 10)])"
  by pat_completeness auto
termination
  by (relation "measure (\<lambda>n. n)") auto

declare string_of_nat.simps [simp del]

definition string_of_int :: "int \<Rightarrow> string" where
  "string_of_int i = (if i < 0 then CHR ''-'' # string_of_nat (nat (- i)) else string_of_nat (nat i))"

record scale_cfg =
  cfg_robots :: int
  cfg_jobs :: int

definition DEFAULT_SCALE_MAP :: "(string \<times> scale_cfg) list" where
  "DEFAULT_SCALE_MAP =
     [(''mini'', \<lparr>cfg_robots = 5, cfg_jobs = 5\<rparr>),
      (''small'', \<lparr>cfg_robots = 5, cfg_jobs = 25\<rparr>),
      (''demo'', \<lparr>cfg_robots = 10, cfg_jobs = 50\<rparr>),
      (''large'', \<lparr>cfg_robots = 20, cfg_jobs = 100\<rparr>)]"

text \<open>\<open>_build_scale_map\<close>; its arguments are the values of the environment variables
  FLEET_ROBOTS and FLEET_JOBS (0 when unset).\<close>

definition build_scale_map :: "int \<Rightarrow> int \<Rightarrow> (string \<times> scale_cfg) list" where
  "build_scale_map robots jobs =
     (if robots > 0 \<and> jobs > 0
      then map (\<lambda>(key, value). (key, \<lparr>cfg_robots = robots, cfg_jobs = jobs\<rparr>)) DEFAULT_SCALE_MAP
      else DEFAULT_SCALE_MAP)"

text \<open>The module state world.py reads: the environment behind \<open>SCALE_MAP\<close> and the two
  speed settings.\<close>

record sim_settings =
  env_fleet_robots :: int
  env_fleet_jobs :: int
  robot_speed_min :: real
  robot_speed_max :: real

definition SCALE_MAP :: "sim_settings \<Rightarrow> (string \<times> scale_cfg) list" where
  "SCALE_MAP S = build_scale_map (env_fleet_robots S) (env_fleet_jobs S)"

text \<open>The two loops of \<open>generate_scenario\<close>, over \<open>range(1, count + 1)\<close>, threading
  the generator.\<close>

fun gen_robots ::
  "'g py_random \<Rightarrow> sim_settings \<Rightarrow> int \<Rightarrow> int list \<Rightarrow> 'g \<Rightarrow> robot list \<times> 'g" where
  "gen_robots P S world_size [] g = ([], g)"
| "gen_robots P S world_size (idx # rest) g =
     (case uniform P 0 (of_int world_size) g of (x, g1) \<Rightarrow>
      case uniform P 0 (of_int world_size) g1 of (y, g2) \<Rightarrow>
      case uniform P (robot_speed_min S) (robot_speed_max S) g2 of (speed, g3) \<Rightarrow>
      case gen_robots P S world_size rest g3 of (robots, g4) \<Rightarrow>
        (\<lparr>r_id = idx, r_x = round3 x, r_y = round3 y, r_speed = round3 speed,
          r_battery = 100, r_state = Idle, r_current_job_id = None, r_target_x = None,
          r_target_y = None, r_phase_remaining_s = 0, r_distance_traveled = 0\<rparr> # robots, g4))"

fun gen_jobs ::
  "'g py_random \<Rightarrow> int \<Rightarrow> int list \<Rightarrow> 'g \<Rightarrow> py_error + (job list \<times> 'g)" where
  "gen_jobs P world_size [] g = Inr ([], g)"
| "gen_jobs P world_size (jdx # rest) g =
     (case uniform P 0 (of_int world_size) g of (pickup_x, g1) \<Rightarrow>
      case uniform P 0 (of_int world_size) g1 of (pickup_y, g2) \<Rightarrow>
      case uniform P 0 (of_int world_size) g2 of (dropoff_x, g3) \<Rightarrow>
      case uniform P 0 (of_int world_size) g3 of (dropoff_y, g4) \<Rightarrow>
      case randint P 0 20 g4 of
        Inl err \<Rightarrow> Inl err
      | Inr (slack, g5) \<Rightarrow>
          (case randint P 1 5 g5 of
             Inl err \<Rightarrow> Inl err
           | Inr (priority, g6) \<Rightarrow>
               (case gen_jobs P world_size rest g6 of
                  Inl err \<Rightarrow> Inl err
                | Inr (jobs, g7) \<Rightarrow>
                    Inr (\<lparr>j_id = ''job_'' @ string_of_int jdx,
                          j_pickup_x = round3 pickup_x, j_pickup_y = round3 pickup_y,
                          j_dropoff_x = round3 dropoff_x, j_dropoff_y = round3 dropoff_y,
                          j_deadline_ts = 120 + jdx * 12 + slack, j_priority = priority,
                          j_state = Pending, j_assigned_robot_id = None,
                          j_created_sim_ts = 0, j_started_sim_ts = None,
                          j_completed_sim_ts = None, j_lateness_s = 0\<rparr> # jobs, g7))))"

text \<open>What is hashed: seed, scale, the robots in full and seven fields of each job.
  The digest itself (SHA-256 of the canonical JSON) is a parameter.\<close>

type_synonym scenario_payload =
  "int \<times> string \<times> robot list \<times> (string \<times> real \<times> real \<times> real \<times> real \<times> int \<times> int) list"

definition scenario_payload_of :: "int \<Rightarrow> string \<Rightarrow> robot list \<Rightarrow> job list \<Rightarrow> scenario_payload" where
  "scenario_payload_of seed scale robots jobs =
     (seed, scale, robots,
      map (\<lambda>job. (j_id job, j_pickup_x job, j_pickup_y job, j_dropoff_x job, j_dropoff_y job,
                   j_deadline_ts job, j_priority job)) jobs)"

definition generate_scenario ::
  "'g py_random \<Rightarrow> sim_settings \<Rightarrow> (scenario_payload \<Rightarrow> string) \<Rightarrow> int \<Rightarrow> string \<Rightarrow> int
     \<Rightarrow> int option \<Rightarrow> int option \<Rightarrow> py_error + (robot list \<times> job list \<times> string)" where
  "generate_scenario P S sha256_json seed scale world_size robots_override jobs_override =
     (if map_of (SCALE_MAP S) scale = None then Inl (ValueError (''invalid scale: '' @ scale))
      else if (robots_override = None) \<noteq> (jobs_override = None) then
        Inl (ValueError ''robots_override and jobs_override must be provided together'')
      else if (case robots_override of Some n \<Rightarrow> n \<le> 0 | None \<Rightarrow> False) then
        Inl (ValueError ''robots_override must be > 0'')
      else if (case jobs_override of Some n \<Rightarrow> n \<le> 0 | None \<Rightarrow> False) then
        Inl (ValueError ''jobs_override must be > 0'')
      else
        (let cfg = the (map_of (SCALE_MAP S) scale);
             robots_count = (case robots_override of Some n \<Rightarrow> n | None \<Rightarrow> cfg_robots cfg);
             jobs_count = (case jobs_override of Some n \<Rightarrow> n | None \<Rightarrow> cfg_jobs cfg);
             rng = rnd_seed P seed
         in case gen_robots P S world_size [1..robots_count] rng of (robots, rng1) \<Rightarrow>
            (case gen_jobs P world_size [1..jobs_count] rng1 of
               Inl err \<Rightarrow> Inl err
             | Inr (jobs, rng2) \<Rightarrow>
                 Inr (robots, jobs, sha256_json (scenario_payload_of seed scale robots jobs)))))"

subsubsection \<open>The validation rule as the specification words it\<close>

definition invalid_request :: "sim_settings \<Rightarrow> string \<Rightarrow> int option \<Rightarrow> int option \<Rightarrow> bool" where
  "invalid_request S scale robots_override jobs_override \<longleftrightarrow>
     scale \<notin> fst ` set (SCALE_MAP S)
     \<or> (robots_override \<noteq> None \<and> jobs_override = None)
     \<or> (robots_override = None \<and> jobs_override \<noteq> None)
     \<or> (case robots_override of Some n \<Rightarrow> n \<le> 0 | None \<Rightarrow> False)
     \<or> (case jobs_override of Some n \<Rightarrow> n \<le> 0 | None \<Rightarrow> False)"

text \<open>A toy generator for concrete runs: a linear congruential state, \<open>random()\<close> its
  low 16 bits as a fraction, \<open>_randbelow(n)\<close> its residue modulo \<open>n\<close>.\<close>

definition lcg_next :: "nat \<Rightarrow> nat" where
  "lcg_next s = (s * 75 + 74) mod 65537"

definition lcg :: "nat py_random" where
  "lcg = \<lparr>rnd_seed = (\<lambda>seed. nat \<bar>seed\<bar> mod 65537),
          rnd_random = (\<lambda>s. (real (lcg_next s mod 65536) / 65536, lcg_next s)),
          rnd_randbelow = (\<lambda>n s. (lcg_next s mod n, lcg_next s))\<rparr>"

definition default_settings :: sim_settings where
  "default_settings = \<lparr>env_fleet_robots = 0, env_fleet_jobs = 0,
     robot_speed_min = 1, robot_speed_max = 2\<rparr>"

subsection \<open>Dispatcher: emitting assignments (dispatcher-worker-py/app/main.py)\<close>

text \<open>A published job.assigned payload. The wall-clock field \<open>ts_utc\<close> is left out:
  it is read from the system clock and no state of the program determines it.\<close>

record job_assigned_event =
  ev_event_id :: string
  ev_event_type :: string
  ev_run_id :: string
  ev_mode :: string
  ev_seed :: int
  ev_scale :: string
  ev_sim_time_s :: int
  ev_job_id :: string
  ev_robot_id :: int
  ev_reason :: string
  ev_idempotency_key :: string

text \<open>\<open>RunState\<close>, without its three locks: the operations below are run one after
  the other.\<close>

record run_state =
  rs_run_id :: string
  rs_mode :: string
  rs_seed :: int
  rs_scale :: string
  rs_robots :: "(int \<times> d_robot) list"
  rs_jobs :: "(string \<times> d_job) list"
  rs_assigned_jobs :: "string set"
  rs_pending_assignments :: "(int \<times> string) list"
  rs_planned_queues :: "(int \<times> string list) list"
  rs_optimizer_in_flight :: bool
  rs_next_periodic_replan_sim_s :: "int option"
  rs_last_baseline_dispatch_sim_s :: "int option"

text \<open>The worker as one run sees it: whether \<open>self.exchange\<close> is set, what has been
  published to it under the routing key job.assigned, and the run's state.\<close>

record worker =
  w_exchange :: bool
  w_published :: "job_assigned_event list"
  w_state :: run_state

text \<open>\<open>_emit_assignment\<close>. \<open>sha1\<close> stands for \<open>hashlib.sha1(...).hexdigest()\<close>.\<close>

definition emit_assignment ::
  "(string \<Rightarrow> string) \<Rightarrow> worker \<Rightarrow> string \<Rightarrow> int \<Rightarrow> int \<Rightarrow> string \<Rightarrow> worker" where
  "emit_assignment sha1 w job_id robot_id sim_time_s reason =
     (if \<not> w_exchange w then w
      else
        let state = w_state w in
        if job_id \<in> rs_assigned_jobs state then w
        else
          (case map_of (rs_jobs state) job_id of
             None \<Rightarrow> w
           | Some job \<Rightarrow>
               if dj_state job \<notin> {''pending'', ''unassigned''} then w
               else
                 let event_id_source =
                       rs_run_id state @ '':'' @ job_id @ '':'' @ string_of_int robot_id
                       @ '':'' @ string_of_int sim_time_s;
                     payload =
                       \<lparr>ev_event_id = sha1 event_id_source,
                        ev_event_type = ''job.assigned'',
                        ev_run_id = rs_run_id state,
                        ev_mode = rs_mode state,
                        ev_seed = rs_seed state,
                        ev_scale = rs_scale state,
                        ev_sim_time_s = sim_time_s,
                        ev_job_id = job_id,
                        ev_robot_id = robot_id,
                        ev_reason = reason,
                        ev_idempotency_key = rs_run_id state @ '':'' @ job_id\<rparr>;
                     robots' =
                       (case map_of (rs_robots state) robot_id of
                          None \<Rightarrow> rs_robots state
                        | Some robot \<Rightarrow>
                            AList.update robot_id
                              (robot\<lparr>dr_state := ''moving_to_pickup'',
                                     dr_current_job_id := Some job_id\<rparr>)
                              (rs_robots state))
                 in w\<lparr>w_published := w_published w @ [payload],
                      w_state := state
                        \<lparr>rs_assigned_jobs := insert job_id (rs_assigned_jobs state),
                         rs_jobs := AList.update job_id (job\<lparr>dj_state := ''assigned''\<rparr>)
                                      (rs_jobs state),
                         rs_robots := robots',
                         rs_pending_assignments :=
                           AList.update robot_id job_id (rs_pending_assignments state)\<rparr>\<rparr>))"

text \<open>\<open>_dispatch_baseline\<close>; \<open>battery_threshold\<close> is \<open>settings.battery_threshold\<close>.\<close>

definition dispatch_baseline :: "(string \<Rightarrow> string) \<Rightarrow> real \<Rightarrow> worker \<Rightarrow> int \<Rightarrow> worker" where
  "dispatch_baseline sha1 battery_threshold w sim_time_s =
     (let state = w_state w;
          assignments =
            compute_baseline_assignments (rs_robots state) (rs_jobs state)
              (rs_assigned_jobs state) (set (map fst (rs_pending_assignments state)))
              battery_threshold
      in fold (\<lambda>assignment w'.
                 emit_assignment sha1 w' (a_job_id assignment) (a_robot_id assignment)
                   sim_time_s (a_reason assignment))
           assignments w)"

definition dispatch_baseline_once_per_tick ::
  "(string \<Rightarrow> string) \<Rightarrow> real \<Rightarrow> worker \<Rightarrow> int \<Rightarrow> worker" where
  "dispatch_baseline_once_per_tick sha1 battery_threshold w sim_time_s =
     (if rs_last_baseline_dispatch_sim_s (w_state w) = Some sim_time_s then w
      else dispatch_baseline sha1 battery_threshold
             (w\<lparr>w_state := (w_state w)\<lparr>rs_last_baseline_dispatch_sim_s := Some sim_time_s\<rparr>\<rparr>)
             sim_time_s)"

text \<open>The \<open>while queue\<close> loop of \<open>_emit_planned_for_idle_robot\<close>: job ids are popped
  from the front until one is still assignable; the result is that job id, if any, and
  what is left of the queue.\<close>

fun next_planned :: "run_state \<Rightarrow> string list \<Rightarrow> string option \<times> string list" where
  "next_planned state [] = (None, [])"
| "next_planned state (job_id # queue) =
     (case map_of (rs_jobs state) job_id of
        None \<Rightarrow> next_planned state queue
      | Some job \<Rightarrow>
          if job_id \<in> rs_assigned_jobs state then next_planned state queue
          else if dj_state job \<notin> {''pending'', ''unassigned''} then next_planned state queue
          else (Some job_id, queue))"

definition emit_planned_for_idle_robot ::
  "(string \<Rightarrow> string) \<Rightarrow> real \<Rightarrow> worker \<Rightarrow> int \<Rightarrow> int \<Rightarrow> worker" where
  "emit_planned_for_idle_robot sha1 battery_threshold w robot_id sim_time_s =
     (let state = w_state w in
      case map_of (rs_robots state) robot_id of
        None \<Rightarrow> w
      | Some robot \<Rightarrow>
          if dr_state robot \<noteq> ''idle'' then w
          else if dr_battery robot < battery_threshold then w
          else
            (case map_of (rs_planned_queues state) robot_id of
               None \<Rightarrow> w
             | Some queue \<Rightarrow>
                 (case next_planned state queue of (found, queue') \<Rightarrow>
                    let w' = w\<lparr>w_state := state
                               \<lparr>rs_planned_queues :=
                                  AList.update robot_id queue' (rs_planned_queues state)\<rparr>\<rparr>
                    in (case found of
                          None \<Rightarrow> w'
                        | Some job_id \<Rightarrow>
                            emit_assignment sha1 w' job_id robot_id sim_time_s
                              ''ga_planned''))))"

definition emit_planned_for_idle_robots ::
  "(string \<Rightarrow> string) \<Rightarrow> real \<Rightarrow> worker \<Rightarrow> int \<Rightarrow> worker" where
  "emit_planned_for_idle_robots sha1 battery_threshold w sim_time_s =
     fold (\<lambda>robot_id w'. emit_planned_for_idle_robot sha1 battery_threshold w' robot_id sim_time_s)
       (sort (map fst (rs_robots (w_state w)))) w"

text \<open>The calls whose sequences the assignment invariant is about.\<close>

datatype dispatcher_call =
    Emit_assignment string int int string
  | Dispatch_baseline int
  | Dispatch_baseline_once_per_tick int
  | Emit_planned_for_idle_robot int int
  | Emit_planned_for_idle_robots int

fun run_call :: "(string \<Rightarrow> string) \<Rightarrow> real \<Rightarrow> dispatcher_call \<Rightarrow> worker \<Rightarrow> worker" where
  "run_call sha1 thr (Emit_assignment job_id robot_id sim_time_s reason) w =
     emit_assignment sha1 w job_id robot_id sim_time_s reason"
| "run_call sha1 thr (Dispatch_baseline sim_time_s) w = dispatch_baseline sha1 thr w sim_time_s"
| "run_call sha1 thr (Dispatch_baseline_once_per_tick sim_time_s) w =
     dispatch_baseline_once_per_tick sha1 thr w sim_time_s"
| "run_call sha1 thr (Emit_planned_for_idle_robot robot_id sim_time_s) w =
     emit_planned_for_idle_robot sha1 thr w robot_id sim_time_s"
| "run_call sha1 thr (Emit_planned_for_idle_robots sim_time_s) w =
     emit_planned_for_idle_robots sha1 thr w sim_time_s"

definition run_calls :: "(string \<Rightarrow> string) \<Rightarrow> real \<Rightarrow> dispatcher_call list \<Rightarrow> worker \<Rightarrow> worker" where
  "run_calls sha1 thr calls w = fold (run_call sha1 thr) calls w"

subsubsection \<open>The emission rule as the specification words it\<close>

definition may_publish :: "worker \<Rightarrow> string \<Rightarrow> bool" where
  "may_publish w job_id \<longleftrightarrow>
     w_exchange w \<and> job_id \<notin> rs_assigned_jobs (w_state w) \<and>
     (case map_of (rs_jobs (w_state w)) job_id of
        None \<Rightarrow> False
      | Some job \<Rightarrow> dj_state job = ''pending'' \<or> dj_state job = ''unassigned'')"

text \<open>Every published job id is recorded in \<open>assigned_jobs\<close>, and none was published
  twice.\<close>

definition published_once :: "worker \<Rightarrow> bool" where
  "published_once w \<longleftrightarrow>
     distinct (map ev_job_id (w_published w)) \<and>
     set (map ev_job_id (w_published w)) \<subseteq> rs_assigned_jobs (w_state w)"

text \<open>A run in baseline mode that has heard of the two robots and two jobs of
  test_baseline.py and has published nothing yet.\<close>

definition fresh_worker :: worker where
  "fresh_worker =
     \<lparr>w_exchange = True, w_published = [],
      w_state = \<lparr>rs_run_id = ''run-1'', rs_mode = ''baseline'', rs_seed = 42,
                 rs_scale = ''mini'', rs_robots = two_robots, rs_jobs = two_jobs,
                 rs_assigned_jobs = {}, rs_pending_assignments = [],
                 rs_planned_queues = [(1, [''j1'', ''j2'']), (2, [''j2'', ''j1''])],
                 rs_optimizer_in_flight = False, rs_next_periodic_replan_sim_s = None,
                 rs_last_baseline_dispatch_sim_s = None\<rparr>\<rparr>"

subsection \<open>Optimizer: genetic operators (optimizer-service-py/app/ga/operators.py)\<close>

text \<open>A list comprehension of \<open>n\<close> draws \<open>rng.randrange(stop)\<close>.\<close>

fun draw_genes :: "'g py_random \<Rightarrow> int \<Rightarrow> nat \<Rightarrow> 'g \<Rightarrow> py_error + (int list \<times> 'g)" where
  "draw_genes P stop 0 g = Inr ([], g)"
| "draw_genes P stop (Suc n) g =
     (case randrange P stop g of
        Inl err \<Rightarrow> Inl err
      | Inr (v, g1) \<Rightarrow>
          (case draw_genes P stop n g1 of
             Inl err \<Rightarrow> Inl err
           | Inr (vs, g2) \<Rightarrow> Inr (v # vs, g2)))"

fun draw_population ::
  "'g py_random \<Rightarrow> int \<Rightarrow> nat \<Rightarrow> nat \<Rightarrow> 'g \<Rightarrow> py_error + (int list list \<times> 'g)" where
  "draw_population P robot_count chromosome_len 0 g = Inr ([], g)"
| "draw_population P robot_count chromosome_len (Suc n) g =
     (case draw_genes P robot_count chromosome_len g of
        Inl err \<Rightarrow> Inl err
      | Inr (c, g1) \<Rightarrow>
          (case draw_population P robot_count chromosome_len n g1 of
             Inl err \<Rightarrow> Inl err
           | Inr (cs, g2) \<Rightarrow> Inr (c # cs, g2)))"

definition initialize_population ::
  "'g py_random \<Rightarrow> int \<Rightarrow> nat \<Rightarrow> int \<Rightarrow> 'g \<Rightarrow> py_error + (int list list \<times> 'g)" where
  "initialize_population P population_size chromosome_len robot_count rng =
     (if chromosome_len = 0 then Inr ([[]], rng)
      else draw_population P robot_count chromosome_len (nat population_size) rng)"

text \<open>\<open>tournament_select\<close> with \<open>k = 3\<close>: three indices are drawn, the first of least
  (fitness, index) wins; an index outside the lists raises IndexError.\<close>

definition tournament_select ::
  "'g py_random \<Rightarrow> int list list \<Rightarrow> real list \<Rightarrow> 'g \<Rightarrow> py_error + (int list \<times> 'g)" where
  "tournament_select P population fitnesses rng =
     (case draw_genes P (int (length population)) 3 rng of
        Inl err \<Rightarrow> Inl err
      | Inr (indices, rng1) \<Rightarrow>
          if \<exists>idx \<in> set indices. \<not> (0 \<le> idx \<and> nat idx < length fitnesses) then Inl IndexError
          else
            let best_idx = arg_min_list (\<lambda>idx. (fitnesses ! nat idx, idx)) indices in
            if nat best_idx < length population then Inr (population ! nat best_idx, rng1)
            else Inl IndexError)"

definition crossover ::
  "'g py_random \<Rightarrow> int list \<Rightarrow> int list \<Rightarrow> 'g \<Rightarrow> py_error + ((int list \<times> int list) \<times> 'g)" where
  "crossover P parent_a parent_b rng =
     (if length parent_a \<le> 1 then Inr ((parent_a, parent_b), rng)
      else
        (case randrange2 P 1 (int (length parent_a)) rng of
           Inl err \<Rightarrow> Inl err
         | Inr (point, rng1) \<Rightarrow>
             Inr ((take (nat point) parent_a @ drop (nat point) parent_b,
                   take (nat point) parent_b @ drop (nat point) parent_a), rng1)))"

text \<open>\<open>mutate\<close>: gene by gene, a draw of \<open>random()\<close> and, below the rate, a draw of
  the new gene.\<close>

fun mutate ::
  "'g py_random \<Rightarrow> int list \<Rightarrow> int \<Rightarrow> real \<Rightarrow> 'g \<Rightarrow> py_error + (int list \<times> 'g)" where
  "mutate P [] robot_count mutation_rate rng = Inr ([], rng)"
| "mutate P (gene # rest) robot_count mutation_rate rng =
     (case rnd_random P rng of (u, rng1) \<Rightarrow>
        if u < mutation_rate then
          (case randrange P robot_count rng1 of
             Inl err \<Rightarrow> Inl err
           | Inr (v, rng2) \<Rightarrow>
               (case mutate P rest robot_count mutation_rate rng2 of
                  Inl err \<Rightarrow> Inl err
                | Inr (rest', rng3) \<Rightarrow> Inr (v # rest', rng3)))
        else
          (case mutate P rest robot_count mutation_rate rng1 of
             Inl err \<Rightarrow> Inl err
           | Inr (rest', rng3) \<Rightarrow> Inr (gene # rest', rng3)))"

subsection \<open>Optimizer: the GA loop (optimizer-service-py/app/ga/optimizer.py)\<close>

record o_assignment =
  oa_job_id :: string
  oa_robot_id :: int
  oa_score :: real

text \<open>The \<open>meta\<close> dictionary: the early return has only the first two keys.\<close>

record o_meta =
  meta_best_score :: real
  meta_generations :: int
  meta_population_size :: "int option"
  meta_seed :: "int option"

text \<open>The parameters that stay fixed during a run.\<close>

record ga_params =
  ga_robots :: "o_robot list"
  ga_jobs :: "o_job list"
  ga_service_time_s :: int
  ga_population_size :: int
  ga_elite_size :: int
  ga_crossover_rate :: real
  ga_mutation_rate :: real

type_synonym evaluated_row = "real \<times> nat \<times> int list \<times> (string \<times> real) list"

text \<open>The best chromosome so far; \<open>None\<close> is the initial
  \<open>best_chromosome = None, best_score = inf\<close>.\<close>

type_synonym best_so_far = "(real \<times> int list \<times> (string \<times> real) list) option"

text \<open>The inner \<open>for idx, chromosome in enumerate(population)\<close>.\<close>

fun evaluate_population ::
  "ga_params \<Rightarrow> nat \<Rightarrow> int list list \<Rightarrow> evaluated_row list \<Rightarrow> best_so_far
     \<Rightarrow> py_error + (evaluated_row list \<times> best_so_far)" where
  "evaluate_population G idx [] evaluated best = Inr (evaluated, best)"
| "evaluate_population G idx (chromosome # rest) evaluated best =
     (case evaluate_chromosome chromosome (ga_robots G) (ga_jobs G) (ga_service_time_s G) of
        Inl err \<Rightarrow> Inl err
      | Inr fit \<Rightarrow>
          evaluate_population G (idx + 1) rest
            (evaluated @ [(fr_score fit, idx, chromosome, fr_job_scores fit)])
            (case best of
               None \<Rightarrow> Some (fr_score fit, chromosome, fr_job_scores fit)
             | Some (best_score, best_chromosome, best_job_scores) \<Rightarrow>
                 if fr_score fit < best_score
                 then Some (fr_score fit, chromosome, fr_job_scores fit)
                 else best))"

text \<open>\<open>xs[:n]\<close> for an integer \<open>n\<close>: a negative \<open>n\<close> counts from the end.\<close>

definition py_prefix :: "int \<Rightarrow> 'a list \<Rightarrow> 'a list" where
  "py_prefix n xs = (if n \<ge> 0 then take (nat n) xs else take (length xs - nat (- n)) xs)"

text \<open>The \<open>while len(next_population) < population_size\<close> loop: every iteration
  appends at least one chromosome.\<close>

function fill_population ::
  "'g py_random \<Rightarrow> ga_params \<Rightarrow> int list list \<Rightarrow> real list \<Rightarrow> int list list \<Rightarrow> 'g
     \<Rightarrow> py_error + (int list list \<times> 'g)" where
  "fill_population P G sorted_population fitnesses next_population rng =
     (if int (length next_population) < ga_population_size G then
        (case tournament_select P sorted_population fitnesses rng of
           Inl err \<Rightarrow> Inl err
         | Inr (parent_a, rng1) \<Rightarrow>
        (case tournament_select P sorted_population fitnesses rng1 of
           Inl err \<Rightarrow> Inl err
         | Inr (parent_b, rng2) \<Rightarrow>
        (case rnd_random P rng2 of (u, rng3) \<Rightarrow>
        (case (if u < ga_crossover_rate G then crossover P parent_a parent_b rng3
               else Inr ((parent_a, parent_b), rng3)) of
           Inl err \<Rightarrow> Inl err
         | Inr ((child_a, child_b), rng4) \<Rightarrow>
        (case mutate P child_a (int (length (ga_robots G))) (ga_mutation_rate G) rng4 of
           Inl err \<Rightarrow> Inl err
         | Inr (mutant_a, rng5) \<Rightarrow>
             if int (length (next_population @ [mutant_a])) < ga_population_size G then
               (case mutate P child_b (int (length (ga_robots G))) (ga_mutation_rate G) rng5 of
                  Inl err \<Rightarrow> Inl err
                | Inr (mutant_b, rng6) \<Rightarrow>
                    fill_population P G sorted_population fitnesses
                      (next_population @ [mutant_a, mutant_b]) rng6)
             else
               fill_population P G sorted_population fitnesses
                 (next_population @ [mutant_a]) rng5)))))
      else Inr (next_population, rng))"
  by pat_completeness auto
termination
  by (relation "measure (\<lambda>(P, G, sorted_population, fitnesses, next_population, rng).
        nat (ga_population_size G - int (length next_population)))") auto

declare fill_population.simps [simp del]

text \<open>One generation, and \<open>for _ in range(generations)\<close>.\<close>

definition generation ::
  "'g py_random \<Rightarrow> ga_params \<Rightarrow> int list list \<Rightarrow> best_so_far \<Rightarrow> 'g
     \<Rightarrow> py_error + ((int list list \<times> best_so_far) \<times> 'g)" where
  "generation P G population best rng =
     (case evaluate_population G 0 population [] best of
        Inl err \<Rightarrow> Inl err
      | Inr (evaluated, best') \<Rightarrow>
          let evaluated = sort_key (\<lambda>(score, idx, chromosome, job_scores). (score, idx)) evaluated;
              next_population =
                map (\<lambda>(score, idx, chromosome, job_scores). chromosome)
                  (py_prefix (ga_elite_size G) evaluated);
              fitnesses = map (\<lambda>(score, idx, chromosome, job_scores). score) evaluated;
              sorted_population =
                map (\<lambda>(score, idx, chromosome, job_scores). chromosome) evaluated
          in (case fill_population P G sorted_population fitnesses next_population rng of
                Inl err \<Rightarrow> Inl err
              | Inr (population', rng') \<Rightarrow> Inr ((population', best'), rng')))"

fun generations_loop ::
  "'g py_random \<Rightarrow> ga_params \<Rightarrow> nat \<Rightarrow> int list list \<Rightarrow> best_so_far \<Rightarrow> 'g
     \<Rightarrow> py_error + ((int list list \<times> best_so_far) \<times> 'g)" where
  "generations_loop P G 0 population best rng = Inr ((population, best), rng)"
| "generations_loop P G (Suc n) population best rng =
     (case generation P G population best rng of
        Inl err \<Rightarrow> Inl err
      | Inr ((population', best'), rng') \<Rightarrow> generations_loop P G n population' best' rng')"

text \<open>Decoding the best chromosome (lines 84-93).\<close>

fun decode ::
  "o_robot list \<Rightarrow> int list \<Rightarrow> (string \<times> real) list \<Rightarrow> nat \<Rightarrow> o_job list
     \<Rightarrow> py_error + o_assignment list" where
  "decode ordered_robots best_chromosome best_job_scores idx [] = Inr []"
| "decode ordered_robots best_chromosome best_job_scores idx (job # rest) =
     (if idx \<ge> length best_chromosome then Inl IndexError
      else
        let robot = ordered_robots
              ! nat (best_chromosome ! idx mod int (length ordered_robots))
        in (case decode ordered_robots best_chromosome best_job_scores (idx + 1) rest of
              Inl err \<Rightarrow> Inl err
            | Inr assignments \<Rightarrow>
                Inr (\<lparr>oa_job_id = oj_id job, oa_robot_id = or_id robot,
                      oa_score = (case map_of best_job_scores (oj_id job) of
                                    Some s \<Rightarrow> s | None \<Rightarrow> 0)\<rparr> # assignments)))"

definition optimize_assignments ::
  "'g py_random \<Rightarrow> o_robot list \<Rightarrow> o_job list \<Rightarrow> int \<Rightarrow> int \<Rightarrow> int \<Rightarrow> int \<Rightarrow> int \<Rightarrow> real
     \<Rightarrow> real \<Rightarrow> py_error + (o_assignment list \<times> o_meta)" where
  "optimize_assignments P robots jobs seed service_time_s population_size generations
       elite_size crossover_rate mutation_rate =
     (let ordered_robots = sort_key or_id robots;
          ordered_jobs = sorted_jobs jobs
      in if ordered_jobs = [] \<or> ordered_robots = [] then
           Inr ([], \<lparr>meta_best_score = 0, meta_generations = 0,
                     meta_population_size = None, meta_seed = None\<rparr>)
         else
           let rng = rnd_seed P seed;
               chromosome_len = length ordered_jobs;
               G = \<lparr>ga_robots = ordered_robots, ga_jobs = ordered_jobs,
                    ga_service_time_s = service_time_s,
                    ga_population_size = population_size, ga_elite_size = elite_size,
                    ga_crossover_rate = crossover_rate, ga_mutation_rate = mutation_rate\<rparr>
           in (case initialize_population P population_size chromosome_len
                      (int (length ordered_robots)) rng of
                 Inl err \<Rightarrow> Inl err
               | Inr (population, rng1) \<Rightarrow>
                   (case generations_loop P G (nat generations) population None rng1 of
                      Inl err \<Rightarrow> Inl err
                    | Inr ((population', best), rng2) \<Rightarrow>
                        (case (case best of
                                 Some b \<Rightarrow> Inr b
                               | None \<Rightarrow>
                                   (case evaluate_chromosome (map (\<lambda>_. 0) ordered_jobs)
                                           ordered_robots ordered_jobs service_time_s of
                                      Inl err \<Rightarrow> Inl err
                                    | Inr best_fit \<Rightarrow>
                                        Inr (fr_score best_fit, map (\<lambda>_. 0) ordered_jobs,
                                             fr_job_scores best_fit))) of
                           Inl err \<Rightarrow> Inl err
                         | Inr (best_score, best_chromosome, best_job_scores) \<Rightarrow>
                             (case decode ordered_robots best_chromosome best_job_scores 0
                                     ordered_jobs of
                                Inl err \<Rightarrow> Inl err
                              | Inr assignments \<Rightarrow>
                                  Inr (sort_key (\<lambda>a. (oa_job_id a, oa_robot_id a)) assignments,
                                       \<lparr>meta_best_score = best_score,
                                        meta_generations = generations,
                                        meta_population_size = Some population_size,
                                        meta_seed = Some seed\<rparr>))))))"

subsubsection \<open>Generators that agree\<close>

text \<open>Two generators, possibly of different state types, agree under a relation \<open>R\<close>
  between their states when seeding gives related states and, from related states, each
  primitive draw gives the same value and related states.\<close>

definition gen_agree :: "'g py_random \<Rightarrow> 'h py_random \<Rightarrow> ('g \<Rightarrow> 'h \<Rightarrow> bool) \<Rightarrow> bool" where
  "gen_agree P Q R \<longleftrightarrow>
     (\<forall>seed. R (rnd_seed P seed) (rnd_seed Q seed)) \<and>
     (\<forall>g h. R g h \<longrightarrow>
        fst (rnd_random P g) = fst (rnd_random Q h) \<and>
        R (snd (rnd_random P g)) (snd (rnd_random Q h))) \<and>
     (\<forall>n g h. R g h \<longrightarrow>
        fst (rnd_randbelow P n g) = fst (rnd_randbelow Q n h) \<and>
        R (snd (rnd_randbelow P n g)) (snd (rnd_randbelow Q n h)))"

text \<open>Two results of a drawing operation are the same up to the generator state.\<close>

definition same_draw ::
  "('g \<Rightarrow> 'h \<Rightarrow> bool) \<Rightarrow> py_error + ('a \<times> 'g) \<Rightarrow> py_error + ('a \<times> 'h) \<Rightarrow> bool" where
  "same_draw R x y =
     (case x of
        Inl e \<Rightarrow> y = Inl e
      | Inr (a, g) \<Rightarrow> (case y of Inl e \<Rightarrow> False | Inr (b, h) \<Rightarrow> a = b \<and> R g h))"

text \<open>\<open>_randbelow(n)\<close> returns a number below \<open>n\<close>.\<close>

definition randbelow_in_range :: "'g py_random \<Rightarrow> bool" where
  "randbelow_in_range P \<longleftrightarrow> (\<forall>n g. 0 < n \<longrightarrow> fst (rnd_randbelow P n g) < n)"

text \<open>The best chromosome, once there is one, has \<open>n\<close> genes.\<close>

definition best_has_length :: "nat \<Rightarrow> best_so_far \<Rightarrow> bool" where
  "best_has_length n best =
     (case best of None \<Rightarrow> True
      | Some (best_score, best_chromosome, best_job_scores) \<Rightarrow> length best_chromosome = n)"

definition row_chromosome :: "evaluated_row \<Rightarrow> int list" where
  "row_chromosome row = (case row of (score, idx, chromosome, scores) \<Rightarrow> chromosome)"

subsubsection \<open>The inputs of app/tests/test_determinism.py\<close>

definition det_robots :: "o_robot list" where
  "det_robots =
     [\<lparr>or_id = 1, or_x = 0, or_y = 0, or_speed = 3 / 2, or_battery = 100, or_state = Idle,
       or_current_job_id = None\<rparr>,
      \<lparr>or_id = 2, or_x = 10, or_y = 10, or_speed = 6 / 5, or_battery = 100, or_state = Idle,
       or_current_job_id = None\<rparr>]"

definition det_jobs :: "o_job list" where
  "det_jobs =
     [\<lparr>oj_id = ''job-1'', oj_pickup_x = 1, oj_pickup_y = 1, oj_dropoff_x = 5, oj_dropoff_y = 5,
       oj_deadline_ts = 120, oj_priority = 5, oj_state = Pending\<rparr>,
      \<lparr>oj_id = ''job-2'', oj_pickup_x = 3, oj_pickup_y = 7, oj_dropoff_x = 8, oj_dropoff_y = 1,
       oj_deadline_ts = 160, oj_priority = 4, oj_state = Pending\<rparr>]"

text \<open>The toy generator again, with its state kept one higher.\<close>

definition lcg_shifted :: "nat py_random" where
  "lcg_shifted =
     \<lparr>rnd_seed = (\<lambda>seed. rnd_seed lcg seed + 1),
      rnd_random = (\<lambda>s. (fst (rnd_random lcg (s - 1)), snd (rnd_random lcg (s - 1)) + 1)),
      rnd_randbelow = (\<lambda>n s. (fst (rnd_randbelow lcg n (s - 1)),
                               snd (rnd_randbelow lcg n (s - 1)) + 1))\<rparr>"

section \<open>Properties\<close>

subsection \<open>Baseline heuristic\<close>

lemma arg_min_list_step:
  "arg_min_list f (x # y # zs) =
     (if f y < f x then arg_min_list f (y # zs) else arg_min_list f (x # zs))"
  for f :: "'a \<Rightarrow> 'b::linorder"
proof (cases zs)
  case Nil
  then show ?thesis by (auto simp: Let_def)
next
  case (Cons z zs')
  show ?thesis unfolding Cons
    by (cases "f y \<le> f (arg_min_list f (z # zs'))") (auto simp: Let_def)
qed

lemma nearest_loop_step:
  "nearest_loop job used (r # rs) best =
     (if dr_id r \<in> used then nearest_loop job used rs best
      else case best of
        None \<Rightarrow> nearest_loop job used rs (Some (fst (nearest_key job r), r))
      | Some (bd, br) \<Rightarrow>
          if (fst (nearest_key job r), dr_id r) < (bd, dr_id br)
          then nearest_loop job used rs (Some (fst (nearest_key job r), r))
          else nearest_loop job used rs best)"
  by (auto simp: nearest_key_def less_prod_def Let_def split: option.splits)

lemma nearest_key_eq: "(fst (nearest_key job r), dr_id r) = nearest_key job r"
  by (simp add: nearest_key_def)

text \<open>With a current best, the loop returns the first robot of least key among the best
  and the unused robots still to be visited.\<close>

lemma nearest_loop_Some:
  "nearest_loop job used rs (Some (fst (nearest_key job b), b)) =
     Some (let m = arg_min_list (nearest_key job) (b # filter (\<lambda>r. dr_id r \<notin> used) rs)
           in (fst (nearest_key job m), m))"
proof (induction rs arbitrary: b)
  case Nil
  then show ?case by simp
next
  case (Cons r rs)
  show ?case
  proof (cases "dr_id r \<in> used")
    case True
    then show ?thesis using Cons.IH [of b]
      by (simp add: nearest_loop_step del: nearest_loop.simps)
  next
    case False
    show ?thesis
    proof (cases "nearest_key job r < nearest_key job b")
      case True
      then show ?thesis using False Cons.IH [of r]
        by (simp add: nearest_loop_step nearest_key_eq arg_min_list_step
                 del: nearest_loop.simps arg_min_list.simps)
    next
      case nb: False
      then show ?thesis using False Cons.IH [of b]
        by (simp add: nearest_loop_step nearest_key_eq arg_min_list_step
                 del: nearest_loop.simps arg_min_list.simps)
    qed
  qed
qed

lemma nearest_loop_None:
  "nearest_loop job used rs None =
     (case filter (\<lambda>r. dr_id r \<notin> used) rs of
        [] \<Rightarrow> None
      | r0 # free \<Rightarrow> Some (let m = arg_min_list (nearest_key job) (r0 # free)
                          in (fst (nearest_key job m), m)))"
proof (induction rs)
  case Nil
  then show ?case by simp
next
  case (Cons r rs)
  show ?case
  proof (cases "dr_id r \<in> used")
    case True
    then show ?thesis using Cons.IH by simp
  next
    case False
    have "nearest_loop job used (r # rs) None =
            nearest_loop job used rs (Some (fst (nearest_key job r), r))"
      using False by (simp add: nearest_loop_step del: nearest_loop.simps)
    then show ?thesis using False
      by (simp add: nearest_loop_Some del: arg_min_list.simps nearest_loop.simps)
  qed
qed

lemma assign_loop_spec:
  "assign_loop idle jobs used acc = acc @ edf_nearest_spec idle jobs used"
proof (induction jobs arbitrary: used acc)
  case Nil
  then show ?case by simp
next
  case (Cons job jobs)
  show ?case
    by (cases "filter (\<lambda>r. dr_id r \<notin> used) idle")
       (simp_all add: nearest_loop_None Cons.IH Let_def del: arg_min_list.simps)
qed

lemma sort_key_eq_Nil: "sort_key f xs = [] \<longleftrightarrow> xs = []"
  by (metis length_sort length_0_conv)

lemma pending_jobs_of_filter:
  "pending_jobs_of jobs aa =
     [j \<leftarrow> map snd jobs.
        (dj_state j = ''pending'' \<or> dj_state j = ''unassigned'') \<and> dj_id j \<notin> aa]"
  by (simp add: pending_jobs_of_def)

lemma compute_baseline_amended:
  "compute_baseline_assignments robots jobs aa blocked thr =
     baseline_spec_amended robots jobs aa blocked thr"
  unfolding compute_baseline_assignments_def baseline_spec_amended_def Let_def
    assign_loop_spec candidate_jobs_spec_def battery_candidates_spec_def
    unfiltered_candidates_spec_def idle_robots_of_def pending_jobs_of_filter sort_key_eq_Nil
    job_sort_key_def assignment_sort_key_def
  by (simp cong: if_cong)




lemma baseline_low_battery_robot:
  "compute_baseline_assignments low_battery_robot one_job {} {} 20 =
     [\<lparr>a_job_id = ''job_1'', a_robot_id = 1, a_reason = ''baseline_edf_nearest''\<rparr>]"
  by (simp add: compute_baseline_assignments_def pending_jobs_of_def idle_robots_of_def
      low_battery_robot_def one_job_def idle_robot_at_def pending_job_def job_sort_key_def
      assignment_sort_key_def distance_def Let_def less_eq_prod_def less_prod_def)




text \<open>
  Claim C7: whenever the battery filter leaves no candidate robot while pending jobs exist,
  the candidate robots are rebuilt from all idle, unblocked robots, and the result is the
  greedy assignment over those; one idle robot with battery 5 at (0,0) and one pending
  job with pickup (1,1) under threshold 20 yields exactly that job assigned to that robot.
\<close>

theorem baseline_battery_fallback:
  "(battery_candidates_spec robots blocked thr = [] \<and> pending_jobs_of jobs aa \<noteq> [] \<longrightarrow>
      idle_robots_of robots (pending_jobs_of jobs aa) blocked thr
        = [r \<leftarrow> map snd robots. dr_state r = ''idle'' \<and> dr_id r \<notin> blocked]
      \<and> compute_baseline_assignments robots jobs aa blocked thr
        = sort_key (\<lambda>a. (a_job_id a, a_robot_id a))
            (edf_nearest_spec (unfiltered_candidates_spec robots blocked)
               (candidate_jobs_spec jobs aa) {}))
   \<and> compute_baseline_assignments low_battery_robot one_job {} {} 20 =
       [\<lparr>a_job_id = ''job_1'', a_robot_id = 1, a_reason = ''baseline_edf_nearest''\<rparr>]"
proof (intro conjI impI)
  assume h: "battery_candidates_spec robots blocked thr = [] \<and> pending_jobs_of jobs aa \<noteq> []"
  then have e: "[r \<leftarrow> map snd robots.
      dr_state r = ''idle'' \<and> dr_id r \<notin> blocked \<and> thr \<le> dr_battery r] = []"
    by (simp add: battery_candidates_spec_def sort_key_eq_Nil)
  show "idle_robots_of robots (pending_jobs_of jobs aa) blocked thr
        = [r \<leftarrow> map snd robots. dr_state r = ''idle'' \<and> dr_id r \<notin> blocked]"
    using h e unfolding idle_robots_of_def Let_def by simp
  have c: "candidate_jobs_spec jobs aa \<noteq> []"
    using h by (simp add: candidate_jobs_spec_def sort_key_eq_Nil pending_jobs_of_filter)
  show "compute_baseline_assignments robots jobs aa blocked thr
        = sort_key (\<lambda>a. (a_job_id a, a_robot_id a))
            (edf_nearest_spec (unfiltered_candidates_spec robots blocked)
               (candidate_jobs_spec jobs aa) {})"
    using h c by (simp add: compute_baseline_amended baseline_spec_amended_def)
next
  show "compute_baseline_assignments low_battery_robot one_job {} {} 20 =
       [\<lparr>a_job_id = ''job_1'', a_robot_id = 1, a_reason = ''baseline_edf_nearest''\<rparr>]"
    by (rule baseline_low_battery_robot)
qed

theorem baseline_battery_fallback_witness:
  "battery_candidates_spec low_battery_robot {} 20 = []
   \<and> pending_jobs_of one_job {} \<noteq> []
   \<and> idle_robots_of low_battery_robot (pending_jobs_of one_job {}) {} 20
       = map snd low_battery_robot"
  using baseline_battery_fallback [of low_battery_robot "{}" 20 one_job "{}"]
  by (simp add: battery_candidates_spec_def pending_jobs_of_def low_battery_robot_def
      one_job_def idle_robot_at_def pending_job_def)

subsection \<open>Fitness evaluation\<close>

lemma gene_index_less:
  "robots \<noteq> [] \<Longrightarrow> nat (gene mod int (length robots)) < length robots"
  by (simp add: nat_less_iff)

lemma job_terms_of_spec:
  fixes gene :: int
  assumes "views_rel (length robots) st V" and "robots \<noteq> []"
  defines "i \<equiv> nat (gene mod int (length robots))"
  shows "jt_robot_idx (job_terms_of robots svc gene job st) = i"
    and "jt_distance (job_terms_of robots svc gene job st) = travel_spec (V i) job"
    and "jt_completion_time (job_terms_of robots svc gene job st)
           = completion_spec (V i) (or_speed (robots ! i)) svc job"
    and "jt_lateness (job_terms_of robots svc gene job st)
           = lateness_spec (V i) (or_speed (robots ! i)) svc job"
    and "jt_battery_after (job_terms_of robots svc gene job st) = battery_after_spec (V i) job"
    and "jt_job_penalty (job_terms_of robots svc gene job st)
           = job_score_spec (V i) (or_speed (robots ! i)) svc job"
proof -
  have il: "i < length robots" unfolding i_def using assms(2) by (rule gene_index_less)
  have v: "robot_time st ! i = v_time (V i)" "robot_pos st ! i = (v_x (V i), v_y (V i))"
    "robot_battery st ! i = v_battery (V i)" "robot_job_count st ! i = v_jobs (V i)"
    using assms(1) il unfolding views_rel_def by auto
  show "jt_robot_idx (job_terms_of robots svc gene job st) = i"
    by (simp add: job_terms_of_def Let_def i_def split: prod.splits)
  show "jt_distance (job_terms_of robots svc gene job st) = travel_spec (V i) job"
    using v by (simp add: job_terms_of_def Let_def i_def [symmetric] travel_spec_def
        distance_def)
  show "jt_completion_time (job_terms_of robots svc gene job st)
           = completion_spec (V i) (or_speed (robots ! i)) svc job"
    using v by (simp add: job_terms_of_def Let_def i_def [symmetric] travel_spec_def
        distance_def completion_spec_def)
  show "jt_lateness (job_terms_of robots svc gene job st)
           = lateness_spec (V i) (or_speed (robots ! i)) svc job"
    using v by (simp add: job_terms_of_def Let_def i_def [symmetric] travel_spec_def
        distance_def completion_spec_def lateness_spec_def)
  show "jt_battery_after (job_terms_of robots svc gene job st) = battery_after_spec (V i) job"
    using v by (simp add: job_terms_of_def Let_def i_def [symmetric] travel_spec_def
        distance_def battery_after_spec_def)
  show "jt_job_penalty (job_terms_of robots svc gene job st)
           = job_score_spec (V i) (or_speed (robots ! i)) svc job"
    using v by (simp add: job_terms_of_def Let_def i_def [symmetric] travel_spec_def
        distance_def completion_spec_def lateness_spec_def battery_after_spec_def
        battery_penalty_spec_def job_score_spec_def power2_eq_square)
qed

lemma eval_step_views:
  fixes gene :: int
  assumes "views_rel (length robots) st V" and "robots \<noteq> []"
  defines "i \<equiv> nat (gene mod int (length robots))"
  shows "views_rel (length robots) (eval_step robots svc gene job st)
           (V(i := view_after (V i) (or_speed (robots ! i)) svc job))"
proof -
  have il: "i < length robots" unfolding i_def using assms(2) by (rule gene_index_less)
  note t = job_terms_of_spec [OF assms(1,2), where gene = gene and svc = svc and job = job,
      folded i_def]
  show ?thesis
    using assms(1) il unfolding views_rel_def eval_step_def Let_def t
    by (auto simp: view_after_def nth_list_update)
qed

lemma eval_step_totals:
  fixes gene :: int
  assumes "views_rel (length robots) st V" and "robots \<noteq> []"
  defines "i \<equiv> nat (gene mod int (length robots))"
  shows "total_score (eval_step robots svc gene job st)
           = total_score st + job_score_spec (V i) (or_speed (robots ! i)) svc job"
    and "job_scores (eval_step robots svc gene job st)
           = AList.update (oj_id job) (job_score_spec (V i) (or_speed (robots ! i)) svc job)
               (job_scores st)"
  using job_terms_of_spec(6) [OF assms(1,2), where gene = gene and svc = svc and job = job,
      folded i_def]
  by (simp_all add: eval_step_def Let_def)

lemma eval_loop_spec:
  assumes "robots \<noteq> []"
  shows "views_rel (length robots) st V \<Longrightarrow> idx + length jobs \<le> length chromosome \<Longrightarrow>
    \<exists>st'. eval_loop chromosome robots svc idx jobs st = Inr st' \<and>
      total_score st' = total_score st
        + sum_list (scores_spec V robots svc (drop idx chromosome) jobs) \<and>
      job_scores st' =
        fold (\<lambda>(k, v) d. AList.update k v d)
          (zip (map oj_id jobs) (scores_spec V robots svc (drop idx chromosome) jobs))
          (job_scores st)"
proof (induction jobs arbitrary: idx st V)
  case Nil
  then show ?case by simp
next
  case (Cons job jobs)
  define g where "g = chromosome ! idx"
  define i where "i = nat (g mod int (length robots))"
  define V' where "V' = V(i := view_after (V i) (or_speed (robots ! i)) svc job)"
  have lt: "idx < length chromosome" using Cons.prems(2) by simp
  then have dr: "drop idx chromosome = g # drop (Suc idx) chromosome"
    by (simp add: g_def Cons_nth_drop_Suc)
  have rel': "views_rel (length robots) (eval_step robots svc g job st) V'"
    unfolding V'_def i_def by (rule eval_step_views [OF Cons.prems(1) assms])
  have le: "Suc idx + length jobs \<le> length chromosome" using Cons.prems(2) by simp
  from Cons.IH [OF rel' le] obtain st' where
    st': "eval_loop chromosome robots svc (Suc idx) jobs (eval_step robots svc g job st) = Inr st'"
      "total_score st' = total_score (eval_step robots svc g job st)
        + sum_list (scores_spec V' robots svc (drop (Suc idx) chromosome) jobs)"
      "job_scores st' =
        fold (\<lambda>(k, v) d. AList.update k v d)
          (zip (map oj_id jobs) (scores_spec V' robots svc (drop (Suc idx) chromosome) jobs))
          (job_scores (eval_step robots svc g job st))"
    by blast
  note tot = eval_step_totals [OF Cons.prems(1) assms, where gene = g and svc = svc
      and job = job, folded i_def]
  have "eval_loop chromosome robots svc idx (job # jobs) st = Inr st'"
    using lt st'(1) by (simp add: g_def)
  moreover have "total_score st' = total_score st
        + sum_list (scores_spec V robots svc (drop idx chromosome) (job # jobs))"
    unfolding dr st'(2) tot by (simp add: Let_def i_def [symmetric] V'_def)
  moreover have "job_scores st' =
        fold (\<lambda>(k, v) d. AList.update k v d)
          (zip (map oj_id (job # jobs))
             (scores_spec V robots svc (drop idx chromosome) (job # jobs)))
          (job_scores st)"
    unfolding dr st'(3) tot by (simp add: Let_def i_def [symmetric] V'_def)
  ultimately show ?case by blast
qed

lemma initial_views_rel: "views_rel (length robots) (initial_eval_state robots) (initial_view robots)"
  by (simp add: views_rel_def initial_eval_state_def initial_view_def)

lemma evaluate_chromosome_spec:
  assumes "robots \<noteq> []" and "jobs \<noteq> []" and "length jobs \<le> length chromosome"
  shows "evaluate_chromosome chromosome robots jobs svc =
     Inr \<lparr>fr_score =
            sum_list (scores_spec (initial_view robots) robots svc chromosome (sorted_jobs jobs)),
          fr_job_scores =
            dict_of_pairs (zip (map oj_id (sorted_jobs jobs))
              (scores_spec (initial_view robots) robots svc chromosome (sorted_jobs jobs)))\<rparr>"
proof -
  have le: "0 + length (sorted_jobs jobs) \<le> length chromosome"
    using assms(3) by (simp add: sorted_jobs_def)
  from eval_loop_spec [OF assms(1) initial_views_rel le, of svc]
  obtain st' where st': "eval_loop chromosome robots svc 0 (sorted_jobs jobs)
        (initial_eval_state robots) = Inr st'"
    "total_score st' = total_score (initial_eval_state robots)
        + sum_list (scores_spec (initial_view robots) robots svc (drop 0 chromosome)
            (sorted_jobs jobs))"
    "job_scores st' =
        fold (\<lambda>(k, v) d. AList.update k v d)
          (zip (map oj_id (sorted_jobs jobs))
             (scores_spec (initial_view robots) robots svc (drop 0 chromosome)
                (sorted_jobs jobs)))
          (job_scores (initial_eval_state robots))"
    by blast
  show ?thesis
    using assms(1,2) st'
    by (simp add: evaluate_chromosome_def dict_of_pairs_def initial_eval_state_def)
qed







subsection \<open>Simulation engine\<close>

lemma last_index_Some: "last_index P xs = Some i \<Longrightarrow> i < length xs \<and> P (xs ! i)"
  by (induction xs arbitrary: i) (auto split: option.splits if_splits)

lemma last_index_map: "last_index P xs = last_index (\<lambda>b. b) (map P xs)"
  by (induction xs) (auto split: option.splits)

lemma last_index_update:
  assumes "P y = P (xs ! i)"
  shows "last_index P (xs[i := y]) = last_index P xs"
proof -
  have "map P (xs[i := y]) = map P xs"
  proof (cases "i < length xs")
    case True
    then have "(map P xs)[i := (map P xs) ! i] = map P xs" by (simp only: list_update_id)
    then show ?thesis using assms True by (simp add: map_update)
  next
    case False
    then have "length xs \<le> i" by simp
    then show ?thesis by (simp only: list_update_beyond)
  qed
  then show ?thesis using last_index_map [of P] by metis
qed

lemma emit_robot_updated_frame:
  "e_robots (emit_robot_updated e r t f) = e_robots e"
  "e_jobs (emit_robot_updated e r t f) = e_jobs e"
  "e_tick (emit_robot_updated e r t f) = e_tick e"
  "e_tick_hz (emit_robot_updated e r t f) = e_tick_hz e"
  "e_charge_rate (emit_robot_updated e r t f) = e_charge_rate e"
  "e_resume_state (emit_robot_updated e r t f) = e_resume_state e"
  by (simp_all add: emit_robot_updated_def split: option.splits)

lemma emit_robot_updated_forced_sink:
  "e_sink (emit_robot_updated e r t True) = e_sink e @ [robot_payload_of r t]"
  by (simp add: emit_robot_updated_def)

lemma apply_assignment_rejected:
  "\<not> assignable e a \<Longrightarrow> apply_assignment e a = (False, e)"
  by (auto simp: assignable_def apply_assignment_def Let_def split: option.splits)

lemma apply_assignment_accepted:
  assumes "robots_by_id e (sa_robot_id a) = Some ri" and "jobs_by_id e (sa_job_id a) = Some ji"
    and "r_state (e_robots e ! ri) = Idle"
    and "j_state (e_jobs e ! ji) = Pending \<or> j_state (e_jobs e ! ji) = Unassigned"
  shows "fst (apply_assignment e a)"
    and "e_jobs (snd (apply_assignment e a)) =
           (e_jobs e)[ji := (e_jobs e ! ji)\<lparr>j_state := Assigned,
              j_assigned_robot_id := Some (r_id (e_robots e ! ri)),
              j_started_sim_ts := Some (current_sim_time_s e)\<rparr>]"
    and "e_robots (snd (apply_assignment e a)) =
           (e_robots e)[ri := (e_robots e ! ri)\<lparr>r_current_job_id := Some (j_id (e_jobs e ! ji)),
              r_target_x := Some (j_pickup_x (e_jobs e ! ji)),
              r_target_y := Some (j_pickup_y (e_jobs e ! ji)),
              r_phase_remaining_s := 0, r_state := Moving_to_pickup\<rparr>]"
    and "e_sink (snd (apply_assignment e a)) =
           e_sink e @ [robot_payload_of
             ((e_robots e ! ri)\<lparr>r_current_job_id := Some (j_id (e_jobs e ! ji)),
                r_target_x := Some (j_pickup_x (e_jobs e ! ji)),
                r_target_y := Some (j_pickup_y (e_jobs e ! ji)),
                r_phase_remaining_s := 0, r_state := Moving_to_pickup\<rparr>)
             (current_sim_time_s e)]"
  using assms
  by (auto simp: apply_assignment_def Let_def emit_robot_updated_frame
      emit_robot_updated_forced_sink current_sim_time_s_def)

lemma apply_assignment_twice:
  "apply_assignment (snd (apply_assignment e a)) a = (False, snd (apply_assignment e a))"
proof (cases "assignable e a")
  case False
  then show ?thesis by (simp add: apply_assignment_rejected)
next
  case True
  then obtain ri ji where l: "robots_by_id e (sa_robot_id a) = Some ri"
    "jobs_by_id e (sa_job_id a) = Some ji" "r_state (e_robots e ! ri) = Idle"
    "j_state (e_jobs e ! ji) = Pending \<or> j_state (e_jobs e ! ji) = Unassigned"
    by (auto simp: assignable_def split: option.splits)
  define e' where "e' = snd (apply_assignment e a)"
  note acc = apply_assignment_accepted [OF l, folded e'_def]
  have ri: "ri < length (e_robots e)"
    using l(1) last_index_Some unfolding robots_by_id_def by fastforce
  have "robots_by_id e' (sa_robot_id a) = Some ri"
    unfolding robots_by_id_def acc(3) using l(1)
    by (simp add: last_index_update robots_by_id_def)
  moreover have "r_state (e_robots e' ! ri) = Moving_to_pickup"
    unfolding acc(3) using ri by simp
  ultimately have "\<not> assignable e' a"
    by (simp add: assignable_def split: option.splits)
  then show ?thesis unfolding e'_def [symmetric] by (rule apply_assignment_rejected)
qed

lemma test_engine_lookups:
  "robots_by_id test_engine 1 = Some 0" "jobs_by_id test_engine ''job_1'' = Some 0"
  "robots_by_id test_engine 2 = None"
  by (simp_all add: test_engine_def engine_of_def robots_by_id_def jobs_by_id_def
      test_robot_def test_job_def)

text \<open>
  Claim C5: apply_assignment returns true exactly when the named robot and job exist, the
  robot is idle and the job is pending or unassigned; it then marks the job assigned to
  the robot (with the start time), sends the robot moving to the job's pickup and hands one
  forced robot.updated payload to the sink; otherwise it returns false and leaves the whole
  engine unchanged; and a second application of the same assignment returns false and
  changes nothing.
\<close>

theorem apply_assignment_contract:
  "(fst (apply_assignment e a) \<longleftrightarrow> assignable e a)
   \<and> (assignable e a \<longrightarrow>
        (\<exists>ri ji. robots_by_id e (sa_robot_id a) = Some ri \<and> jobs_by_id e (sa_job_id a) = Some ji
           \<and> e_jobs (snd (apply_assignment e a)) =
               (e_jobs e)[ji := (e_jobs e ! ji)\<lparr>j_state := Assigned,
                  j_assigned_robot_id := Some (r_id (e_robots e ! ri)),
                  j_started_sim_ts := Some (current_sim_time_s e)\<rparr>]
           \<and> e_robots (snd (apply_assignment e a)) =
               (e_robots e)[ri := (e_robots e ! ri)\<lparr>
                  r_current_job_id := Some (j_id (e_jobs e ! ji)),
                  r_target_x := Some (j_pickup_x (e_jobs e ! ji)),
                  r_target_y := Some (j_pickup_y (e_jobs e ! ji)),
                  r_phase_remaining_s := 0, r_state := Moving_to_pickup\<rparr>]
           \<and> e_sink (snd (apply_assignment e a)) =
               e_sink e @ [robot_payload_of
                 ((e_robots e ! ri)\<lparr>r_current_job_id := Some (j_id (e_jobs e ! ji)),
                    r_target_x := Some (j_pickup_x (e_jobs e ! ji)),
                    r_target_y := Some (j_pickup_y (e_jobs e ! ji)),
                    r_phase_remaining_s := 0, r_state := Moving_to_pickup\<rparr>)
                 (current_sim_time_s e)]))
   \<and> (\<not> assignable e a \<longrightarrow> snd (apply_assignment e a) = e)
   \<and> apply_assignment (snd (apply_assignment e a)) a = (False, snd (apply_assignment e a))"
proof (intro conjI impI)
  show "fst (apply_assignment e a) \<longleftrightarrow> assignable e a"
  proof (cases "assignable e a")
    case True
    then obtain ri ji where "robots_by_id e (sa_robot_id a) = Some ri"
      "jobs_by_id e (sa_job_id a) = Some ji" "r_state (e_robots e ! ri) = Idle"
      "j_state (e_jobs e ! ji) = Pending \<or> j_state (e_jobs e ! ji) = Unassigned"
      by (auto simp: assignable_def split: option.splits)
    from apply_assignment_accepted(1) [OF this] True show ?thesis by simp
  next
    case False
    then show ?thesis by (simp add: apply_assignment_rejected)
  qed
next
  assume "assignable e a"
  then obtain ri ji where l: "robots_by_id e (sa_robot_id a) = Some ri"
    "jobs_by_id e (sa_job_id a) = Some ji" "r_state (e_robots e ! ri) = Idle"
    "j_state (e_jobs e ! ji) = Pending \<or> j_state (e_jobs e ! ji) = Unassigned"
    by (auto simp: assignable_def split: option.splits)
  show "\<exists>ri ji. robots_by_id e (sa_robot_id a) = Some ri \<and> jobs_by_id e (sa_job_id a) = Some ji
           \<and> e_jobs (snd (apply_assignment e a)) =
               (e_jobs e)[ji := (e_jobs e ! ji)\<lparr>j_state := Assigned,
                  j_assigned_robot_id := Some (r_id (e_robots e ! ri)),
                  j_started_sim_ts := Some (current_sim_time_s e)\<rparr>]
           \<and> e_robots (snd (apply_assignment e a)) =
               (e_robots e)[ri := (e_robots e ! ri)\<lparr>
                  r_current_job_id := Some (j_id (e_jobs e ! ji)),
                  r_target_x := Some (j_pickup_x (e_jobs e ! ji)),
                  r_target_y := Some (j_pickup_y (e_jobs e ! ji)),
                  r_phase_remaining_s := 0, r_state := Moving_to_pickup\<rparr>]
           \<and> e_sink (snd (apply_assignment e a)) =
               e_sink e @ [robot_payload_of
                 ((e_robots e ! ri)\<lparr>r_current_job_id := Some (j_id (e_jobs e ! ji)),
                    r_target_x := Some (j_pickup_x (e_jobs e ! ji)),
                    r_target_y := Some (j_pickup_y (e_jobs e ! ji)),
                    r_phase_remaining_s := 0, r_state := Moving_to_pickup\<rparr>)
                 (current_sim_time_s e)]"
    using l apply_assignment_accepted(2,3,4) [OF l] by blast
next
  assume "\<not> assignable e a"
  then show "snd (apply_assignment e a) = e" by (simp add: apply_assignment_rejected)
next
  show "apply_assignment (snd (apply_assignment e a)) a = (False, snd (apply_assignment e a))"
    by (rule apply_assignment_twice)
qed

theorem apply_assignment_contract_witness:
  "assignable test_engine \<lparr>sa_job_id = ''job_1'', sa_robot_id = 1\<rparr>
   \<and> fst (apply_assignment test_engine \<lparr>sa_job_id = ''job_1'', sa_robot_id = 1\<rparr>)
   \<and> map r_state (e_robots (snd (apply_assignment test_engine
         \<lparr>sa_job_id = ''job_1'', sa_robot_id = 1\<rparr>))) = [Moving_to_pickup]
   \<and> map j_state (e_jobs (snd (apply_assignment test_engine
         \<lparr>sa_job_id = ''job_1'', sa_robot_id = 1\<rparr>))) = [Assigned]
   \<and> \<not> assignable test_engine \<lparr>sa_job_id = ''job_1'', sa_robot_id = 2\<rparr>
   \<and> snd (apply_assignment test_engine \<lparr>sa_job_id = ''job_1'', sa_robot_id = 2\<rparr>) = test_engine"
proof -
  have y: "assignable test_engine \<lparr>sa_job_id = ''job_1'', sa_robot_id = 1\<rparr>"
    by (simp add: assignable_def test_engine_lookups)
       (simp add: test_engine_def engine_of_def test_robot_def test_job_def)
  have n: "\<not> assignable test_engine \<lparr>sa_job_id = ''job_1'', sa_robot_id = 2\<rparr>"
    by (simp add: assignable_def test_engine_lookups)
  have e: "e_robots test_engine = [test_robot]" "e_jobs test_engine = [test_job]"
    by (simp_all add: test_engine_def engine_of_def)
  from apply_assignment_contract [of test_engine "\<lparr>sa_job_id = ''job_1'', sa_robot_id = 1\<rparr>"]
    apply_assignment_contract [of test_engine "\<lparr>sa_job_id = ''job_1'', sa_robot_id = 2\<rparr>"]
    y n
  show ?thesis by (auto simp: test_engine_lookups e)
qed

subsection \<open>One tick of the engine\<close>

lemma moved_robot_same:
  "r_speed (moved_robot e robot tx ty) = r_speed robot"
  "r_id (moved_robot e robot tx ty) = r_id robot"
  "r_state (moved_robot e robot tx ty) = r_state robot"
  by (simp_all add: moved_robot_def Let_def)

lemma moved_robot_battery:
  "r_battery (moved_robot e robot tx ty) =
     (if distance_to_target_of robot tx ty > 0
      then max 0 (r_battery robot
                  - min (distance_to_target_of robot tx ty) (r_speed robot * dt e) * 0.1)
      else r_battery robot)"
  by (simp add: moved_robot_def Let_def)

lemma serve_pickup_replaces: "replaces_robot e i r1 (serve_pickup e i ji r1)"
  by (simp add: replaces_robot_def same_body_def serve_pickup_def Let_def)

lemma serve_dropoff_replaces: "replaces_robot e i r1 (serve_dropoff e i ji r1)"
  by (simp add: replaces_robot_def same_body_def serve_dropoff_def Let_def)

lemma replaces_robot_update:
  "same_body r r' \<Longrightarrow> replaces_robot e i r (e\<lparr>e_robots := (e_robots e)[i := r']\<rparr>)"
  "same_body r r' \<Longrightarrow>
     replaces_robot e i r (e\<lparr>e_resume_state := m, e_robots := (e_robots e)[i := r']\<rparr>)"
  by (simp_all add: replaces_robot_def)

lemma same_body_simps:
  "same_body r r" "same_body r (r\<lparr>r_state := s\<rparr>)"
  by (simp_all add: same_body_def)

lemma advance_moving_replaces:
  "replaces_robot e i (moved_robot e (e_robots e ! i) tx ty) (advance_moving e i ji tx ty)"
  unfolding advance_moving_def Let_def
  by (simp add: serve_pickup_replaces serve_dropoff_replaces replaces_robot_update
      same_body_simps)

lemma replaces_robot_frame:
  assumes "replaces_robot e i r e'"
  shows "length (e_robots e') = length (e_robots e)"
    and "k \<noteq> i \<Longrightarrow> e_robots e' ! k = e_robots e ! k"
    and "e_tick_hz e' = e_tick_hz e" and "e_charge_rate e' = e_charge_rate e"
    and "e_tick e' = e_tick e"
    and "i < length (e_robots e) \<Longrightarrow> same_body r (e_robots e' ! i)"
  using assms by (simp_all add: replaces_robot_def)

lemmas advance_moving_frame = replaces_robot_frame(1-5) [OF advance_moving_replaces]

lemma advance_moving_same_robot:
  assumes "i < length (e_robots e)"
  shows "r_speed (e_robots (advance_moving e i ji tx ty) ! i) = r_speed (e_robots e ! i)"
    and "r_id (e_robots (advance_moving e i ji tx ty) ! i) = r_id (e_robots e ! i)"
  using replaces_robot_frame(6) [OF advance_moving_replaces assms]
  by (simp_all add: same_body_def moved_robot_same)

lemma advance_moving_battery:
  assumes "i < length (e_robots e)"
  shows "r_battery (e_robots (advance_moving e i ji tx ty) ! i) =
     (let d = distance_to_target_of (e_robots e ! i) tx ty
      in if d > 0
         then max 0 (r_battery (e_robots e ! i) - min d (r_speed (e_robots e ! i) * dt e) * 0.1)
         else r_battery (e_robots e ! i))"
  using replaces_robot_frame(6) [OF advance_moving_replaces assms]
  by (simp add: same_body_def moved_robot_battery Let_def)

lemma advance_robot_frame:
  "length (e_robots (advance_robot e i)) = length (e_robots e)"
  "k \<noteq> i \<Longrightarrow> e_robots (advance_robot e i) ! k = e_robots e ! k"
  "e_tick_hz (advance_robot e i) = e_tick_hz e"
  "e_charge_rate (advance_robot e i) = e_charge_rate e"
  "e_tick (advance_robot e i) = e_tick e"
  by (simp_all add: advance_robot_def Let_def advance_moving_frame split: option.splits)

lemma advance_robot_same_robot:
  assumes "i < length (e_robots e)"
  shows "r_speed (e_robots (advance_robot e i) ! i) = r_speed (e_robots e ! i)"
    and "r_id (e_robots (advance_robot e i) ! i) = r_id (e_robots e ! i)"
  using assms
  by (simp_all add: advance_robot_def Let_def advance_moving_same_robot split: option.splits)

lemma dt_nonneg: "0 < e_tick_hz e \<Longrightarrow> 0 \<le> dt e"
  by (simp add: dt_def)

text \<open>The battery of the advanced robot, case by case.\<close>

lemma advance_robot_battery_charging:
  assumes "i < length (e_robots e)" and "r_state (e_robots e ! i) = Charging"
  shows "r_battery (e_robots (advance_robot e i) ! i)
           = min 100 (r_battery (e_robots e ! i) + e_charge_rate e * dt e)"
  using assms by (simp add: advance_robot_def Let_def)

lemma advance_robot_battery_not_charging:
  assumes "i < length (e_robots e)" and "r_state (e_robots e ! i) \<noteq> Charging"
    and "0 \<le> r_speed (e_robots e ! i) * dt e" and "0 \<le> r_battery (e_robots e ! i)"
  shows "0 \<le> r_battery (e_robots (advance_robot e i) ! i)"
    and "r_battery (e_robots (advance_robot e i) ! i) \<le> r_battery (e_robots e ! i)"
proof -
  have m: "0 \<le> r_battery (e_robots (advance_moving e i ji tx ty) ! i)
      \<and> r_battery (e_robots (advance_moving e i ji tx ty) ! i) \<le> r_battery (e_robots e ! i)"
    for ji tx ty
    unfolding advance_moving_battery [OF assms(1)] Let_def
    using assms(3,4) by (auto simp: min_def max_def)
  show "0 \<le> r_battery (e_robots (advance_robot e i) ! i)"
    using assms m by (simp add: advance_robot_def Let_def split: option.splits)
  show "r_battery (e_robots (advance_robot e i) ! i) \<le> r_battery (e_robots e ! i)"
    using assms m by (simp add: advance_robot_def Let_def split: option.splits)
qed

lemma advance_robot_battery_bounds:
  assumes "i < length (e_robots e)" and "0 < e_tick_hz e" and "0 \<le> e_charge_rate e"
    and "0 \<le> r_speed (e_robots e ! i)"
    and "0 \<le> r_battery (e_robots e ! i)" and "r_battery (e_robots e ! i) \<le> 100"
  shows "0 \<le> r_battery (e_robots (advance_robot e i) ! i)"
    and "r_battery (e_robots (advance_robot e i) ! i) \<le> 100"
    and "r_state (e_robots e ! i) = Charging \<Longrightarrow>
           r_battery (e_robots e ! i) \<le> r_battery (e_robots (advance_robot e i) ! i)"
    and "r_state (e_robots e ! i) \<noteq> Charging \<Longrightarrow>
           r_battery (e_robots (advance_robot e i) ! i) \<le> r_battery (e_robots e ! i)"
proof -
  have d: "0 \<le> dt e" using assms(2) by (rule dt_nonneg)
  then have sd: "0 \<le> r_speed (e_robots e ! i) * dt e" and cd: "0 \<le> e_charge_rate e * dt e"
    using assms(3,4) by simp_all
  show "0 \<le> r_battery (e_robots (advance_robot e i) ! i)"
  proof (cases "r_state (e_robots e ! i) = Charging")
    case True
    then show ?thesis
      unfolding advance_robot_battery_charging [OF assms(1) True] using cd assms(5) by simp
  next
    case False
    then show ?thesis using advance_robot_battery_not_charging(1) [OF assms(1) False sd assms(5)]
      by simp
  qed
  show "r_battery (e_robots (advance_robot e i) ! i) \<le> 100"
  proof (cases "r_state (e_robots e ! i) = Charging")
    case True
    then show ?thesis
      unfolding advance_robot_battery_charging [OF assms(1) True] by simp
  next
    case False
    then show ?thesis using advance_robot_battery_not_charging(2) [OF assms(1) False sd assms(5)]
      assms(6) by simp
  qed
  show "r_state (e_robots e ! i) = Charging \<Longrightarrow>
           r_battery (e_robots e ! i) \<le> r_battery (e_robots (advance_robot e i) ! i)"
    using advance_robot_battery_charging [OF assms(1)] cd assms(6) by simp
  show "r_state (e_robots e ! i) \<noteq> Charging \<Longrightarrow>
           r_battery (e_robots (advance_robot e i) ! i) \<le> r_battery (e_robots e ! i)"
    using advance_robot_battery_not_charging(2) [OF assms(1) _ sd assms(5)] by simp
qed

lemma step_robot_frame:
  "e_robots (step_robot t j e) = e_robots (advance_robot e j)"
  "e_tick_hz (step_robot t j e) = e_tick_hz e"
  "e_charge_rate (step_robot t j e) = e_charge_rate e"
  by (simp_all add: step_robot_def Let_def emit_robot_updated_frame advance_robot_frame)

lemma fold_step_robot_config:
  "length (e_robots (fold (step_robot t) js e)) = length (e_robots e)
   \<and> e_tick_hz (fold (step_robot t) js e) = e_tick_hz e
   \<and> e_charge_rate (fold (step_robot t) js e) = e_charge_rate e"
  by (induction js arbitrary: e) (simp_all add: step_robot_frame advance_robot_frame)

lemma fold_step_robot_untouched:
  "i \<notin> set js \<Longrightarrow> e_robots (fold (step_robot t) js e) ! i = e_robots e ! i"
  by (induction js arbitrary: e) (simp_all add: step_robot_frame advance_robot_frame)

text \<open>Within one tick, the robot at index \<open>i\<close> is advanced exactly once, from an
  engine in which it is as it was at the start of the tick.\<close>

lemma step_at:
  assumes "i < length (e_robots e)"
  shows "\<exists>em. e_robots em ! i = e_robots e ! i \<and> length (e_robots em) = length (e_robots e)
    \<and> e_tick_hz em = e_tick_hz e \<and> e_charge_rate em = e_charge_rate e
    \<and> e_robots (step e) ! i = e_robots (advance_robot em i) ! i"
proof -
  define order where "order = sort_key (\<lambda>i. r_id (e_robots e ! i)) [0..<length (e_robots e)]"
  define t where "t = current_sim_time_s e"
  have "i \<in> set order" and d: "distinct order"
    using assms by (simp_all add: order_def)
  then obtain pre post where sp: "order = pre @ i # post" by (meson split_list)
  with d have ni: "i \<notin> set pre" "i \<notin> set post" by simp_all
  define em where "em = fold (step_robot t) pre e"
  have "e_robots (step e) ! i = e_robots (fold (step_robot t) post (step_robot t i em)) ! i"
    by (simp add: step_def Let_def order_def [symmetric] t_def [symmetric] sp em_def)
  also have "\<dots> = e_robots (advance_robot em i) ! i"
    using ni(2) by (simp add: fold_step_robot_untouched step_robot_frame)
  finally have "e_robots (step e) ! i = e_robots (advance_robot em i) ! i" .
  moreover have "e_robots em ! i = e_robots e ! i"
    unfolding em_def using ni(1) by (rule fold_step_robot_untouched)
  moreover have "length (e_robots em) = length (e_robots e) \<and> e_tick_hz em = e_tick_hz e
    \<and> e_charge_rate em = e_charge_rate e"
    unfolding em_def by (rule fold_step_robot_config)
  ultimately show ?thesis by blast
qed

lemma step_config:
  "length (e_robots (step e)) = length (e_robots e)"
  "e_tick_hz (step e) = e_tick_hz e"
  "e_charge_rate (step e) = e_charge_rate e"
  by (simp_all add: step_def Let_def fold_step_robot_config)

lemma step_speed:
  assumes "i < length (e_robots e)"
  shows "r_speed (e_robots (step e) ! i) = r_speed (e_robots e ! i)"
proof -
  from step_at [OF assms] obtain em where em: "e_robots em ! i = e_robots e ! i"
    "length (e_robots em) = length (e_robots e)"
    "e_robots (step e) ! i = e_robots (advance_robot em i) ! i" by blast
  have "i < length (e_robots em)" using assms em(2) by simp
  from advance_robot_same_robot(1) [OF this] em show ?thesis by simp
qed

lemma step_battery_bounds:
  assumes "i < length (e_robots e)" and "0 < e_tick_hz e" and "0 \<le> e_charge_rate e"
    and "0 \<le> r_speed (e_robots e ! i)"
    and "0 \<le> r_battery (e_robots e ! i)" and "r_battery (e_robots e ! i) \<le> 100"
  shows "0 \<le> r_battery (e_robots (step e) ! i)"
    and "r_battery (e_robots (step e) ! i) \<le> 100"
    and "r_state (e_robots e ! i) = Charging \<Longrightarrow>
           r_battery (e_robots e ! i) \<le> r_battery (e_robots (step e) ! i)"
    and "r_state (e_robots e ! i) \<noteq> Charging \<Longrightarrow>
           r_battery (e_robots (step e) ! i) \<le> r_battery (e_robots e ! i)"
proof -
  from step_at [OF assms(1)] obtain em where em: "e_robots em ! i = e_robots e ! i"
    "length (e_robots em) = length (e_robots e)" "e_tick_hz em = e_tick_hz e"
    "e_charge_rate em = e_charge_rate e"
    "e_robots (step e) ! i = e_robots (advance_robot em i) ! i" by blast
  have h: "i < length (e_robots em)" "0 < e_tick_hz em" "0 \<le> e_charge_rate em"
    "0 \<le> r_speed (e_robots em ! i)" "0 \<le> r_battery (e_robots em ! i)"
    "r_battery (e_robots em ! i) \<le> 100"
    using assms em by simp_all
  note b = advance_robot_battery_bounds [OF h]
  show "0 \<le> r_battery (e_robots (step e) ! i)" using b(1) em(5) by simp
  show "r_battery (e_robots (step e) ! i) \<le> 100" using b(2) em(5) by simp
  show "r_state (e_robots e ! i) = Charging \<Longrightarrow>
           r_battery (e_robots e ! i) \<le> r_battery (e_robots (step e) ! i)"
    using b(3) em(1,5) by simp
  show "r_state (e_robots e ! i) \<noteq> Charging \<Longrightarrow>
           r_battery (e_robots (step e) ! i) \<le> r_battery (e_robots e ! i)"
    using b(4) em(1,5) by simp
qed

lemma steps_battery_bounds:
  assumes "i < length (e_robots e)" and "0 < e_tick_hz e" and "0 \<le> e_charge_rate e"
    and "0 \<le> r_speed (e_robots e ! i)"
    and "0 \<le> r_battery (e_robots e ! i)" and "r_battery (e_robots e ! i) \<le> 100"
  shows "i < length (e_robots ((step ^^ n) e)) \<and> 0 < e_tick_hz ((step ^^ n) e)
    \<and> 0 \<le> e_charge_rate ((step ^^ n) e) \<and> 0 \<le> r_speed (e_robots ((step ^^ n) e) ! i)
    \<and> 0 \<le> r_battery (e_robots ((step ^^ n) e) ! i)
    \<and> r_battery (e_robots ((step ^^ n) e) ! i) \<le> 100"
proof (induction n)
  case 0
  show ?case using assms by simp
next
  case (Suc n)
  define en where "en = (step ^^ n) e"
  have h: "i < length (e_robots en)" "0 < e_tick_hz en" "0 \<le> e_charge_rate en"
    "0 \<le> r_speed (e_robots en ! i)" "0 \<le> r_battery (e_robots en ! i)"
    "r_battery (e_robots en ! i) \<le> 100"
    using Suc.IH unfolding en_def by simp_all
  show ?case
    using step_battery_bounds(1,2) [OF h] step_speed [OF h(1)] h
    by (simp add: en_def [symmetric] step_config)
qed

lemma apply_assignment_battery:
  "r_battery (e_robots (snd (apply_assignment e a)) ! i) = r_battery (e_robots e ! i)"
proof (cases "assignable e a")
  case False
  then show ?thesis by (simp add: apply_assignment_rejected)
next
  case True
  then obtain ri ji where l: "robots_by_id e (sa_robot_id a) = Some ri"
    "jobs_by_id e (sa_job_id a) = Some ji" "r_state (e_robots e ! ri) = Idle"
    "j_state (e_jobs e ! ji) = Pending \<or> j_state (e_jobs e ! ji) = Unassigned"
    by (auto simp: assignable_def split: option.splits)
  have ri: "ri < length (e_robots e)"
    using l(1) last_index_Some unfolding robots_by_id_def by fastforce
  show ?thesis unfolding apply_assignment_accepted(3) [OF l] using ri
    by (cases "i = ri") simp_all
qed

lemma step_single_robot:
  assumes "length (e_robots e) = 1"
  shows "e_robots (step e) = e_robots (advance_robot e 0)"
  using assms by (simp add: step_def Let_def step_robot_frame)

lemma backward_robot_tick:
  "r_battery (e_robots (step (engine_of [backward_robot] [test_job])) ! 0) = 10002 / 100"
proof -
  define e where "e = engine_of [backward_robot] [test_job]"
  have r: "e_robots e ! 0 = backward_robot" "length (e_robots e) = 1"
    by (simp_all add: e_def engine_of_def)
  have j: "jobs_by_id e ''job_1'' = Some 0"
    by (simp add: e_def engine_of_def jobs_by_id_def test_job_def)
  have d: "dt e = 1 / 5" by (simp add: dt_def e_def engine_of_def)
  have f: "r_state backward_robot = Moving_to_pickup" "r_battery backward_robot = 100"
    "r_current_job_id backward_robot = Some ''job_1''" "r_target_x backward_robot = Some 1"
    "r_target_y backward_robot = Some 0" "r_x backward_robot = 0" "r_y backward_robot = 0"
    "r_speed backward_robot = - 1"
    by (simp_all add: backward_robot_def test_robot_def)
  have "advance_robot e 0 = advance_moving e 0 0 1 0"
    by (simp add: advance_robot_def Let_def r f j)
  moreover have "r_battery (e_robots (advance_moving e 0 0 1 0) ! 0) = 10002 / 100"
    using r(2) by (simp add: advance_moving_battery r(1) f d distance_to_target_of_def Let_def)
  ultimately show ?thesis
    unfolding e_def [symmetric] step_single_robot [OF r(2)] by simp
qed

lemma draining_engine_tick:
  "r_battery (e_robots (step draining_engine) ! 0) = - 1"
proof -
  have l: "length (e_robots draining_engine) = 1"
    by (simp add: draining_engine_def engine_of_def)
  have "r_battery (e_robots (advance_robot draining_engine 0) ! 0)
      = min 100 (r_battery (e_robots draining_engine ! 0)
                 + e_charge_rate draining_engine * dt draining_engine)"
    by (rule advance_robot_battery_charging)
       (simp_all add: draining_engine_def engine_of_def)
  also have "\<dots> = - 1"
    by (simp add: draining_engine_def engine_of_def dt_def)
  finally show ?thesis unfolding step_single_robot [OF l] .
qed

text \<open>
  Claim C6, as stated: every robot whose battery starts in [0, 100] keeps it there after
  every tick, a moving robot never gains and a charging robot never loses battery within
  a tick. This fails for a robot of negative speed (it travels a negative distance, so the
  battery grows: from 100 to 100.02 in one tick) and in an engine of negative charge rate
  (a charging robot at 0 falls to -1 in one tick).
\<close>

theorem battery_bounds_counterexample:
  "r_battery (e_robots (engine_of [backward_robot] [test_job]) ! 0) = 100
   \<and> r_state (e_robots (engine_of [backward_robot] [test_job]) ! 0) = Moving_to_pickup
   \<and> r_battery (e_robots (step (engine_of [backward_robot] [test_job])) ! 0) > 100
   \<and> r_battery (e_robots draining_engine ! 0) = 0
   \<and> r_state (e_robots draining_engine ! 0) = Charging
   \<and> r_battery (e_robots (step draining_engine) ! 0) < 0"
  unfolding backward_robot_tick draining_engine_tick
  by (simp add: engine_of_def backward_robot_def test_robot_def draining_engine_def)

text \<open>
  Claim C6, amended: in an engine of positive tick rate and non-negative charge rate,
  for every robot of non-negative speed whose battery starts in [0, 100], the battery is
  in [0, 100] after apply_assignment and after any number of ticks; and within a single
  tick a robot that starts the tick charging does not decrease its battery and a robot
  that starts it moving does not increase its battery.
\<close>

theorem battery_bounds_amended:
  assumes "0 < e_tick_hz e" and "0 \<le> e_charge_rate e"
    and "i < length (e_robots e)" and "0 \<le> r_speed (e_robots e ! i)"
    and "0 \<le> r_battery (e_robots e ! i)" and "r_battery (e_robots e ! i) \<le> 100"
  shows "0 \<le> r_battery (e_robots (snd (apply_assignment e a)) ! i)
    \<and> r_battery (e_robots (snd (apply_assignment e a)) ! i) \<le> 100
    \<and> 0 \<le> r_battery (e_robots ((step ^^ n) e) ! i)
    \<and> r_battery (e_robots ((step ^^ n) e) ! i) \<le> 100
    \<and> (r_state (e_robots e ! i) = Charging \<longrightarrow>
          r_battery (e_robots e ! i) \<le> r_battery (e_robots (step e) ! i))
    \<and> (r_state (e_robots e ! i) = Moving_to_pickup \<or> r_state (e_robots e ! i) = Moving_to_dropoff
          \<longrightarrow> r_battery (e_robots (step e) ! i) \<le> r_battery (e_robots e ! i))"
proof -
  note s = step_battery_bounds [OF assms(3,1,2,4,5,6)]
  have "r_state (e_robots e ! i) = Charging \<longrightarrow>
          r_battery (e_robots e ! i) \<le> r_battery (e_robots (step e) ! i)"
    using s(3) by blast
  moreover have "r_state (e_robots e ! i) = Moving_to_pickup
      \<or> r_state (e_robots e ! i) = Moving_to_dropoff
          \<longrightarrow> r_battery (e_robots (step e) ! i) \<le> r_battery (e_robots e ! i)"
    using s(4) by auto
  ultimately show ?thesis
    using steps_battery_bounds [OF assms(3,1,2,4,5,6), of n] assms(5,6)
    by (simp add: apply_assignment_battery)
qed

theorem battery_bounds_amended_witness:
  "0 < e_tick_hz (engine_of [stray_robot] [test_job])
   \<and> 0 \<le> e_charge_rate (engine_of [stray_robot] [test_job])
   \<and> 0 < length (e_robots (engine_of [stray_robot] [test_job]))
   \<and> 0 \<le> r_speed (e_robots (engine_of [stray_robot] [test_job]) ! 0)
   \<and> r_battery (e_robots (engine_of [stray_robot] [test_job]) ! 0) = 100
   \<and> r_state (e_robots (engine_of [stray_robot] [test_job]) ! 0) = Moving_to_pickup
   \<and> r_battery (e_robots ((step ^^ 3) (engine_of [stray_robot] [test_job])) ! 0) \<le> 100
   \<and> r_battery (e_robots (step (engine_of [stray_robot] [test_job])) ! 0) \<le> 100"
proof -
  have h: "0 < e_tick_hz (engine_of [stray_robot] [test_job])"
    "0 \<le> e_charge_rate (engine_of [stray_robot] [test_job])"
    "0 < length (e_robots (engine_of [stray_robot] [test_job]))"
    "0 \<le> r_speed (e_robots (engine_of [stray_robot] [test_job]) ! 0)"
    "0 \<le> r_battery (e_robots (engine_of [stray_robot] [test_job]) ! 0)"
    "r_battery (e_robots (engine_of [stray_robot] [test_job]) ! 0) \<le> 100"
    by (simp_all add: engine_of_def stray_robot_def test_robot_def)
  have v: "r_battery (e_robots (engine_of [stray_robot] [test_job]) ! 0) = 100"
    "r_state (e_robots (engine_of [stray_robot] [test_job]) ! 0) = Moving_to_pickup"
    by (simp_all add: engine_of_def stray_robot_def test_robot_def)
  from battery_bounds_amended [OF h, of "\<lparr>sa_job_id = ''job_1'', sa_robot_id = 1\<rparr>" 3] h v
  show ?thesis by simp
qed



subsection \<open>Scenario generation\<close>

lemma randint_returns:
  "a \<le> b \<Longrightarrow> \<exists>v g'. randint P a b g = Inr (v, g')"
  by (simp add: randint_def randrange2_def Let_def split: prod.splits)

lemma gen_jobs_returns: "\<exists>jobs g'. gen_jobs P world_size idxs g = Inr (jobs, g')"
proof (induction idxs arbitrary: g)
  case Nil
  then show ?case by simp
next
  case (Cons jdx rest)
  obtain px g1 where u1: "uniform P 0 (of_int world_size) g = (px, g1)" by fastforce
  obtain py g2 where u2: "uniform P 0 (of_int world_size) g1 = (py, g2)" by fastforce
  obtain qx g3 where u3: "uniform P 0 (of_int world_size) g2 = (qx, g3)" by fastforce
  obtain qy g4 where u4: "uniform P 0 (of_int world_size) g3 = (qy, g4)" by fastforce
  obtain s g5 where r1: "randint P 0 20 g4 = Inr (s, g5)"
    using randint_returns [of 0 20 P g4] by auto
  obtain p g6 where r2: "randint P 1 5 g5 = Inr (p, g6)"
    using randint_returns [of 1 5 P g5] by auto
  obtain jobs g7 where ih: "gen_jobs P world_size rest g6 = Inr (jobs, g7)"
    using Cons.IH [of g6] by auto
  show ?case by (simp add: u1 u2 u3 u4 r1 r2 ih)
qed

lemma scale_map_keys: "fst ` set (SCALE_MAP S) = {''mini'', ''small'', ''demo'', ''large''}"
  by (auto simp: SCALE_MAP_def build_scale_map_def DEFAULT_SCALE_MAP_def)

lemma invalid_request_iff:
  "invalid_request S scale ro jo \<longleftrightarrow>
     map_of (SCALE_MAP S) scale = None \<or> (ro = None) \<noteq> (jo = None)
     \<or> (case ro of Some n \<Rightarrow> n \<le> 0 | None \<Rightarrow> False)
     \<or> (case jo of Some n \<Rightarrow> n \<le> 0 | None \<Rightarrow> False)"
  unfolding invalid_request_def map_of_eq_None_iff
  by (cases ro; cases jo) auto

text \<open>
  Claim C9: generate_scenario raises a validation error (ValueError) exactly when the
  scale is not a key of the scale map, or exactly one of the two overrides is given, or
  a given override is not positive; then no scenario is produced; for every other input
  it returns a scenario.
\<close>

theorem generate_scenario_validation:
  "((\<exists>msg. generate_scenario P S sha256_json seed scale world_size ro jo = Inl (ValueError msg))
      \<longleftrightarrow> invalid_request S scale ro jo)
   \<and> ((\<exists>robots jobs h.
         generate_scenario P S sha256_json seed scale world_size ro jo = Inr (robots, jobs, h))
      \<longleftrightarrow> \<not> invalid_request S scale ro jo)"
proof (cases "invalid_request S scale ro jo")
  case True
  then have "\<exists>msg. generate_scenario P S sha256_json seed scale world_size ro jo
      = Inl (ValueError msg)"
    unfolding invalid_request_iff generate_scenario_def by auto
  then show ?thesis using True by auto
next
  case False
  define rc where "rc = (case ro of Some n \<Rightarrow> n
      | None \<Rightarrow> cfg_robots (the (map_of (SCALE_MAP S) scale)))"
  define jc where "jc = (case jo of Some n \<Rightarrow> n
      | None \<Rightarrow> cfg_jobs (the (map_of (SCALE_MAP S) scale)))"
  obtain robots g1 where gr: "gen_robots P S world_size [1..rc] (rnd_seed P seed) = (robots, g1)"
    by fastforce
  obtain jobs g2 where gj: "gen_jobs P world_size [1..jc] g1 = Inr (jobs, g2)"
    using gen_jobs_returns [of P world_size "[1..jc]" g1] by auto
  have "generate_scenario P S sha256_json seed scale world_size ro jo
      = Inr (robots, jobs, sha256_json (scenario_payload_of seed scale robots jobs))"
    using False unfolding invalid_request_iff generate_scenario_def Let_def
    by (simp add: rc_def [symmetric] jc_def [symmetric] gr gj)
  then show ?thesis using False by simp
qed

theorem generate_scenario_validation_witness:
  "\<not> invalid_request default_settings ''mini'' None None
   \<and> (\<exists>robots jobs h.
        generate_scenario lcg default_settings (\<lambda>p. []) 42 ''mini'' 100 None None
          = Inr (robots, jobs, h))
   \<and> invalid_request default_settings ''huge'' None None
   \<and> (\<exists>msg. generate_scenario lcg default_settings (\<lambda>p. []) 42 ''huge'' 100 None None
          = Inl (ValueError msg))
   \<and> invalid_request default_settings ''mini'' (Some 3) None
   \<and> (\<exists>msg. generate_scenario lcg default_settings (\<lambda>p. []) 42 ''mini'' 100 (Some 3) None
          = Inl (ValueError msg))
   \<and> invalid_request default_settings ''mini'' (Some 3) (Some 0)
   \<and> (\<exists>msg. generate_scenario lcg default_settings (\<lambda>p. []) 42 ''mini'' 100 (Some 3) (Some 0)
          = Inl (ValueError msg))"
proof -
  have v: "\<not> invalid_request default_settings ''mini'' None None"
    by (simp add: invalid_request_def scale_map_keys)
  have i1: "invalid_request default_settings ''huge'' None None"
    by (simp add: invalid_request_def scale_map_keys)
  have i2: "invalid_request default_settings ''mini'' (Some 3) None"
    by (simp add: invalid_request_def)
  have i3: "invalid_request default_settings ''mini'' (Some 3) (Some 0)"
    by (simp add: invalid_request_def)
  from generate_scenario_validation [of lcg default_settings "\<lambda>p. []" 42 "''mini''" 100 None None]
    generate_scenario_validation [of lcg default_settings "\<lambda>p. []" 42 "''huge''" 100 None None]
    generate_scenario_validation [of lcg default_settings "\<lambda>p. []" 42 "''mini''" 100 "Some 3" None]
    generate_scenario_validation [of lcg default_settings "\<lambda>p. []" 42 "''mini''" 100 "Some 3"
      "Some 0"]
    v i1 i2 i3
  show ?thesis by blast
qed

subsection \<open>Dispatcher: at most one job.assigned per job\<close>

lemma emit_assignment_cases:
  "emit_assignment sha1 w job_id robot_id t reason = w \<and> \<not> may_publish w job_id
   \<or> may_publish w job_id
     \<and> (\<exists>ev. ev_job_id ev = job_id \<and> ev_robot_id ev = robot_id \<and> ev_reason ev = reason
          \<and> ev_sim_time_s ev = t \<and> ev_event_type ev = ''job.assigned''
          \<and> w_published (emit_assignment sha1 w job_id robot_id t reason) = w_published w @ [ev])
     \<and> rs_assigned_jobs (w_state (emit_assignment sha1 w job_id robot_id t reason))
         = insert job_id (rs_assigned_jobs (w_state w))
     \<and> (\<exists>job. map_of (rs_jobs (w_state (emit_assignment sha1 w job_id robot_id t reason))) job_id
                 = Some job \<and> dj_state job = ''assigned'')
     \<and> w_exchange (emit_assignment sha1 w job_id robot_id t reason) = w_exchange w"
proof (cases "may_publish w job_id")
  case False
  then have "emit_assignment sha1 w job_id robot_id t reason = w"
    by (auto simp: may_publish_def emit_assignment_def Let_def split: option.splits)
  then show ?thesis using False by simp
next
  case True
  then obtain job where j: "w_exchange w" "job_id \<notin> rs_assigned_jobs (w_state w)"
    "map_of (rs_jobs (w_state w)) job_id = Some job"
    "dj_state job = ''pending'' \<or> dj_state job = ''unassigned''"
    by (auto simp: may_publish_def split: option.splits)
  have s: "dj_state job \<in> {''pending'', ''unassigned''}" using j(4) by auto
  show ?thesis
    using True j(1,2,3) s
    by (simp add: emit_assignment_def Let_def update_Some_unfold del: insert_iff)
qed

lemma emit_assignment_published_once:
  assumes "published_once w"
  shows "published_once (emit_assignment sha1 w job_id robot_id t reason)"
proof (cases "may_publish w job_id")
  case False
  then show ?thesis
    using emit_assignment_cases [of sha1 w job_id robot_id t reason] assms by auto
next
  case True
  define w' where "w' = emit_assignment sha1 w job_id robot_id t reason"
  from True emit_assignment_cases [of sha1 w job_id robot_id t reason]
  obtain ev where ev: "ev_job_id ev = job_id" "w_published w' = w_published w @ [ev]"
    and a: "rs_assigned_jobs (w_state w') = insert job_id (rs_assigned_jobs (w_state w))"
    unfolding w'_def by blast
  have fresh: "job_id \<notin> rs_assigned_jobs (w_state w)"
    using True by (simp add: may_publish_def)
  have d: "distinct (map ev_job_id (w_published w))"
    and s: "set (map ev_job_id (w_published w)) \<subseteq> rs_assigned_jobs (w_state w)"
    using assms by (simp_all add: published_once_def)
  from s fresh have "job_id \<notin> set (map ev_job_id (w_published w))" by blast
  with d have "distinct (map ev_job_id (w_published w'))" by (simp add: ev)
  moreover from s have "set (map ev_job_id (w_published w')) \<subseteq> rs_assigned_jobs (w_state w')"
    unfolding ev a by (auto simp: ev(1))
  ultimately show ?thesis unfolding w'_def [symmetric] by (simp add: published_once_def)
qed

lemma fold_emit_published_once:
  "published_once w \<Longrightarrow>
   published_once (fold (\<lambda>a w'. emit_assignment sha1 w' (f a) (g a) t (h a)) xs w)"
  by (induction xs arbitrary: w) (simp_all add: emit_assignment_published_once)

lemma dispatch_baseline_published_once:
  "published_once w \<Longrightarrow> published_once (dispatch_baseline sha1 thr w t)"
  unfolding dispatch_baseline_def Let_def by (rule fold_emit_published_once)

lemma published_once_state_update:
  assumes "published_once w" and "rs_assigned_jobs st = rs_assigned_jobs (w_state w)"
  shows "published_once (w\<lparr>w_state := st\<rparr>)"
  using assms by (simp add: published_once_def)

lemma dispatch_baseline_once_per_tick_published_once:
  "published_once w \<Longrightarrow> published_once (dispatch_baseline_once_per_tick sha1 thr w t)"
  unfolding dispatch_baseline_once_per_tick_def
  by (simp add: dispatch_baseline_published_once published_once_state_update)

lemma emit_planned_for_idle_robot_published_once:
  assumes "published_once w"
  shows "published_once (emit_planned_for_idle_robot sha1 thr w robot_id t)"
  using assms unfolding emit_planned_for_idle_robot_def Let_def
  by (auto split: option.splits prod.splits
      intro!: emit_assignment_published_once published_once_state_update)

lemma emit_planned_for_idle_robots_published_once:
  assumes "published_once w"
  shows "published_once (emit_planned_for_idle_robots sha1 thr w t)"
proof -
  have "published_once w \<Longrightarrow>
    published_once (fold (\<lambda>robot_id w'. emit_planned_for_idle_robot sha1 thr w' robot_id t) ids w)"
    for ids w
    by (induction ids arbitrary: w) (simp_all add: emit_planned_for_idle_robot_published_once)
  then show ?thesis using assms unfolding emit_planned_for_idle_robots_def by blast
qed

lemma run_call_published_once:
  "published_once w \<Longrightarrow> published_once (run_call sha1 thr c w)"
  by (cases c)
     (simp_all add: emit_assignment_published_once dispatch_baseline_published_once
        dispatch_baseline_once_per_tick_published_once
        emit_planned_for_idle_robot_published_once emit_planned_for_idle_robots_published_once)

lemma run_calls_published_once:
  "published_once w \<Longrightarrow> published_once (run_calls sha1 thr calls w)"
  unfolding run_calls_def
  by (induction calls arbitrary: w) (simp_all add: run_call_published_once)

lemma distinct_map_filter_le_1:
  "distinct (map f xs) \<Longrightarrow> length (filter (\<lambda>x. f x = y) xs) \<le> 1"
proof (induction xs)
  case Nil
  then show ?case by simp
next
  case (Cons x xs)
  show ?case
  proof (cases "f x = y")
    case True
    then have "y \<notin> f ` set xs" using Cons.prems by auto
    then have "filter (\<lambda>x. f x = y) xs = []" by (auto simp: filter_empty_conv)
    then show ?thesis using True by simp
  next
    case False
    then show ?thesis using Cons by simp
  qed
qed

text \<open>
  Claim C2: starting from a run state in which no job id has been published twice and
  every published job id is in assigned_jobs (in particular from a run that has published
  nothing), after any sequence of calls to _emit_assignment, _dispatch_baseline,
  _dispatch_baseline_once_per_tick, _emit_planned_for_idle_robot and
  _emit_planned_for_idle_robots, at most one job.assigned event has been published for
  any job id. _emit_assignment publishes only when the exchange is set, the job id is not
  in assigned_jobs and the job is known in state pending or unassigned; it then publishes
  exactly one event for that job, adds the job id to assigned_jobs and sets the job's
  state to assigned; otherwise it changes nothing.
\<close>

theorem job_assigned_at_most_once:
  assumes "published_once w"
  shows "length (filter (\<lambda>ev. ev_job_id ev = job_id)
                 (w_published (run_calls sha1 thr calls w))) \<le> 1
    \<and> (\<not> may_publish w job_id \<longrightarrow> emit_assignment sha1 w job_id robot_id t reason = w)
    \<and> (may_publish w job_id \<longrightarrow>
         (\<exists>ev. ev_job_id ev = job_id \<and> ev_robot_id ev = robot_id \<and> ev_reason ev = reason
            \<and> ev_sim_time_s ev = t \<and> ev_event_type ev = ''job.assigned''
            \<and> w_published (emit_assignment sha1 w job_id robot_id t reason)
                = w_published w @ [ev])
         \<and> job_id \<in> rs_assigned_jobs (w_state (emit_assignment sha1 w job_id robot_id t reason))
         \<and> (\<exists>job. map_of (rs_jobs (w_state (emit_assignment sha1 w job_id robot_id t reason)))
                     job_id = Some job \<and> dj_state job = ''assigned''))"
proof (intro conjI impI)
  have "published_once (run_calls sha1 thr calls w)"
    using assms by (rule run_calls_published_once)
  then have "distinct (map ev_job_id (w_published (run_calls sha1 thr calls w)))"
    by (simp add: published_once_def)
  then show "length (filter (\<lambda>ev. ev_job_id ev = job_id)
                 (w_published (run_calls sha1 thr calls w))) \<le> 1"
    by (rule distinct_map_filter_le_1)
next
  assume "\<not> may_publish w job_id"
  then show "emit_assignment sha1 w job_id robot_id t reason = w"
    using emit_assignment_cases [of sha1 w job_id robot_id t reason] by blast
next
  assume m: "may_publish w job_id"
  note c = emit_assignment_cases [of sha1 w job_id robot_id t reason]
  show "\<exists>ev. ev_job_id ev = job_id \<and> ev_robot_id ev = robot_id \<and> ev_reason ev = reason
            \<and> ev_sim_time_s ev = t \<and> ev_event_type ev = ''job.assigned''
            \<and> w_published (emit_assignment sha1 w job_id robot_id t reason)
                = w_published w @ [ev]"
    using m c by blast
  show "job_id \<in> rs_assigned_jobs (w_state (emit_assignment sha1 w job_id robot_id t reason))"
    using m c by blast
  show "\<exists>job. map_of (rs_jobs (w_state (emit_assignment sha1 w job_id robot_id t reason)))
                     job_id = Some job \<and> dj_state job = ''assigned''"
    using m c by blast
qed

lemma fresh_worker_published_once: "published_once fresh_worker"
  by (simp add: published_once_def fresh_worker_def)

lemma fresh_worker_may_publish: "may_publish fresh_worker ''j1''"
  by (simp add: may_publish_def fresh_worker_def two_jobs_def pending_job_def)

lemma fresh_worker_mixed_calls:
  "map (\<lambda>ev. (ev_job_id ev, ev_robot_id ev, ev_reason ev))
     (w_published (run_calls (\<lambda>s. s) 20
        [Emit_planned_for_idle_robot 2 0, Dispatch_baseline_once_per_tick 0,
         Dispatch_baseline_once_per_tick 0, Emit_planned_for_idle_robots 0,
         Emit_assignment ''j2'' 1 1 ''ga_planned'']
        fresh_worker))
   = [(''j2'', 2, ''ga_planned''), (''j1'', 1, ''baseline_edf_nearest'')]"
  by (simp add: run_calls_def emit_planned_for_idle_robot_def emit_planned_for_idle_robots_def
      dispatch_baseline_once_per_tick_def dispatch_baseline_def emit_assignment_def Let_def
      fresh_worker_def two_jobs_def two_robots_def pending_job_def idle_robot_at_def
      compute_baseline_assignments_def pending_jobs_of_def idle_robots_of_def job_sort_key_def
      assignment_sort_key_def distance_def less_eq_prod_def less_prod_def)

theorem job_assigned_at_most_once_witness:
  "published_once fresh_worker
   \<and> may_publish fresh_worker ''j1''
   \<and> length (filter (\<lambda>ev. ev_job_id ev = ''j1'')
        (w_published (run_calls (\<lambda>s. s) 20
           [Emit_planned_for_idle_robot 2 0, Dispatch_baseline_once_per_tick 0,
            Dispatch_baseline_once_per_tick 0, Emit_planned_for_idle_robots 0,
            Emit_assignment ''j2'' 1 1 ''ga_planned'']
           fresh_worker))) \<le> 1
   \<and> map (\<lambda>ev. (ev_job_id ev, ev_robot_id ev, ev_reason ev))
        (w_published (run_calls (\<lambda>s. s) 20
           [Emit_planned_for_idle_robot 2 0, Dispatch_baseline_once_per_tick 0,
            Dispatch_baseline_once_per_tick 0, Emit_planned_for_idle_robots 0,
            Emit_assignment ''j2'' 1 1 ''ga_planned'']
           fresh_worker))
       = [(''j2'', 2, ''ga_planned''), (''j1'', 1, ''baseline_edf_nearest'')]
   \<and> ''j1'' \<in> rs_assigned_jobs (w_state (emit_assignment (\<lambda>s. s) fresh_worker ''j1'' 1 0
        ''ga_planned''))"
  using job_assigned_at_most_once [OF fresh_worker_published_once,
      of "''j1''" "\<lambda>s. s" 20
      "[Emit_planned_for_idle_robot 2 0, Dispatch_baseline_once_per_tick 0,
        Dispatch_baseline_once_per_tick 0, Emit_planned_for_idle_robots 0,
        Emit_assignment ''j2'' 1 1 ''ga_planned'']"
      1 0 "''ga_planned''"]
    fresh_worker_published_once fresh_worker_may_publish fresh_worker_mixed_calls
  by simp

subsection \<open>Optimizer determinism\<close>

lemma same_draw_Inl: "same_draw R (Inl e) (Inl e)"
  by (simp add: same_draw_def)

lemma same_draw_Inr: "R g h \<Longrightarrow> same_draw R (Inr (a, g)) (Inr (a, h))"
  by (simp add: same_draw_def)

lemma same_draw_case:
  assumes "same_draw R x y"
    and "\<And>a g h. R g h \<Longrightarrow> same_draw R (f a g) (f' a h)"
  shows "same_draw R (case x of Inl e \<Rightarrow> Inl e | Inr (a, g) \<Rightarrow> f a g)
                     (case y of Inl e \<Rightarrow> Inl e | Inr (a, h) \<Rightarrow> f' a h)"
proof (cases x)
  case (Inl e)
  then have "y = Inl e" using assms(1) by (simp add: same_draw_def)
  then show ?thesis using Inl by (simp add: same_draw_def)
next
  case (Inr p)
  obtain a g where p: "p = (a, g)" by (cases p)
  from assms(1) Inr p obtain h where y: "y = Inr (a, h)" and r: "R g h"
    by (auto simp: same_draw_def split: sum.splits)
  show ?thesis unfolding Inr p y using assms(2) [OF r] by simp
qed

lemma same_draw_random:
  assumes "gen_agree P Q R" and "R g h"
    and "\<And>u g' h'. R g' h' \<Longrightarrow> same_draw R (f u g') (f' u h')"
  shows "same_draw R (case rnd_random P g of (u, g') \<Rightarrow> f u g')
                     (case rnd_random Q h of (u, h') \<Rightarrow> f' u h')"
proof -
  have "fst (rnd_random P g) = fst (rnd_random Q h)"
    and "R (snd (rnd_random P g)) (snd (rnd_random Q h))"
    using assms(1,2) unfolding gen_agree_def by blast+
  then show ?thesis using assms(3) by (simp add: case_prod_beta)
qed

lemma same_draw_if:
  assumes "c \<Longrightarrow> same_draw R x y" and "\<not> c \<Longrightarrow> same_draw R x' y'"
  shows "same_draw R (if c then x else x') (if c then y else y')"
  using assms by simp

lemma randbelow_agree:
  assumes "gen_agree P Q R" and "R g h"
  shows "same_draw R (case rnd_randbelow P n g of (k, g') \<Rightarrow> Inr (f k, g'))
                     (case rnd_randbelow Q n h of (k, h') \<Rightarrow> Inr (f k, h'))"
proof -
  have "fst (rnd_randbelow P n g) = fst (rnd_randbelow Q n h)"
    and "R (snd (rnd_randbelow P n g)) (snd (rnd_randbelow Q n h))"
    using assms unfolding gen_agree_def by blast+
  then show ?thesis by (simp add: case_prod_beta same_draw_def)
qed

lemma randrange_agree:
  assumes "gen_agree P Q R" and "R g h"
  shows "same_draw R (randrange P stop g) (randrange Q stop h)"
  unfolding randrange_def
  by (intro same_draw_if randbelow_agree [OF assms] same_draw_Inl)

lemma randrange2_agree:
  assumes "gen_agree P Q R" and "R g h"
  shows "same_draw R (randrange2 P start stop g) (randrange2 Q start stop h)"
  unfolding randrange2_def Let_def
  by (intro same_draw_if randbelow_agree [OF assms] same_draw_Inl)

lemma draw_genes_agree:
  assumes "gen_agree P Q R"
  shows "R g h \<Longrightarrow> same_draw R (draw_genes P stop n g) (draw_genes Q stop n h)"
proof (induction n arbitrary: g h)
  case 0
  then show ?case by (simp add: same_draw_Inr)
next
  case (Suc n)
  show ?case unfolding draw_genes.simps
    by (intro same_draw_case randrange_agree [OF assms] Suc.prems Suc.IH same_draw_Inr)
qed

lemma draw_population_agree:
  assumes "gen_agree P Q R"
  shows "R g h \<Longrightarrow>
    same_draw R (draw_population P rc len n g) (draw_population Q rc len n h)"
proof (induction n arbitrary: g h)
  case 0
  then show ?case by (simp add: same_draw_Inr)
next
  case (Suc n)
  show ?case unfolding draw_population.simps
    by (intro same_draw_case draw_genes_agree [OF assms] Suc.prems Suc.IH same_draw_Inr)
qed

lemma initialize_population_agree:
  assumes "gen_agree P Q R" and "R g h"
  shows "same_draw R (initialize_population P ps len rc g) (initialize_population Q ps len rc h)"
  unfolding initialize_population_def
  by (intro same_draw_if draw_population_agree [OF assms] same_draw_Inr assms(2))

lemma tournament_select_agree:
  assumes "gen_agree P Q R" and "R g h"
  shows "same_draw R (tournament_select P pop fs g) (tournament_select Q pop fs h)"
  unfolding tournament_select_def Let_def
  by (intro same_draw_case draw_genes_agree [OF assms] same_draw_if same_draw_Inl same_draw_Inr)

lemma crossover_agree:
  assumes "gen_agree P Q R" and "R g h"
  shows "same_draw R (crossover P a b g) (crossover Q a b h)"
  unfolding crossover_def
  by (intro same_draw_if same_draw_case randrange2_agree [OF assms] same_draw_Inr assms(2))

lemma mutate_agree:
  assumes "gen_agree P Q R"
  shows "R g h \<Longrightarrow> same_draw R (mutate P c rc rate g) (mutate Q c rc rate h)"
proof (induction c arbitrary: g h)
  case Nil
  then show ?case by (simp add: same_draw_Inr)
next
  case (Cons gene rest)
  show ?case unfolding mutate.simps
    by (intro same_draw_random [OF assms Cons.prems] same_draw_if same_draw_case
        randrange_agree [OF assms] Cons.IH same_draw_Inr)
qed

lemma same_draw_pair:
  assumes "\<And>a b. same_draw R (f a b) (f' a b)"
  shows "same_draw R (case p of (a, b) \<Rightarrow> f a b) (case p of (a, b) \<Rightarrow> f' a b)"
  using assms by (cases p) simp

lemma fill_population_agree:
  assumes ag: "gen_agree P Q R"
  shows "R g h \<Longrightarrow>
    same_draw R (fill_population P G sp fs np g) (fill_population Q G sp fs np h)"
proof (induction "nat (ga_population_size G - int (length np))" arbitrary: np g h
    rule: less_induct)
  case less
  show ?case
  proof (cases "int (length np) < ga_population_size G")
    case False
    then show ?thesis
      unfolding fill_population.simps [of P G sp fs np g] fill_population.simps [of Q G sp fs np h]
      using less.prems by (simp add: same_draw_Inr)
  next
    case True
    have ih1: "same_draw R (fill_population P G sp fs (np @ [a]) g')
                 (fill_population Q G sp fs (np @ [a]) h')" if "R g' h'" for a g' h'
      using True that by (intro less.hyps) simp_all
    have ih2: "same_draw R (fill_population P G sp fs (np @ [a, b]) g')
                 (fill_population Q G sp fs (np @ [a, b]) h')" if "R g' h'" for a b g' h'
      using True that by (intro less.hyps) simp_all
    show ?thesis
      unfolding fill_population.simps [of P G sp fs np g] fill_population.simps [of Q G sp fs np h]
      using True
      by (simp only: if_True)
         (intro same_draw_case tournament_select_agree [OF ag] same_draw_random [OF ag]
            same_draw_if crossover_agree [OF ag] mutate_agree [OF ag] same_draw_Inr
            same_draw_pair ih1 ih2 less.prems)
  qed
qed

lemma generation_agree:
  assumes ag: "gen_agree P Q R" and r: "R g h"
  shows "same_draw R (generation P G pop best g) (generation Q G pop best h)"
proof (cases "evaluate_population G 0 pop [] best")
  case (Inl e)
  then show ?thesis by (simp add: generation_def same_draw_Inl)
next
  case (Inr p)
  obtain evaluated best' where p: "p = (evaluated, best')" by (cases p)
  show ?thesis
    unfolding generation_def Inr p Let_def
    by (simp only: sum.case prod.case)
       (intro same_draw_case fill_population_agree [OF ag] same_draw_Inr r)
qed

lemma generations_loop_agree:
  assumes ag: "gen_agree P Q R"
  shows "R g h \<Longrightarrow>
    same_draw R (generations_loop P G n pop best g) (generations_loop Q G n pop best h)"
proof (induction n arbitrary: pop best g h)
  case 0
  then show ?case by (simp add: same_draw_Inr)
next
  case (Suc n)
  show ?case unfolding generations_loop.simps
    by (intro same_draw_case generation_agree [OF ag] Suc.prems same_draw_pair Suc.IH)
qed

lemma same_draw_case_eq:
  assumes "same_draw R x y"
    and "\<And>a g h. R g h \<Longrightarrow> f a g = f' a h"
  shows "(case x of Inl e \<Rightarrow> Inl e | Inr (a, g) \<Rightarrow> f a g)
       = (case y of Inl e \<Rightarrow> Inl e | Inr (a, h) \<Rightarrow> f' a h)"
proof (cases x)
  case (Inl e)
  then have "y = Inl e" using assms(1) by (simp add: same_draw_def)
  then show ?thesis using Inl by simp
next
  case (Inr p)
  obtain a g where p: "p = (a, g)" by (cases p)
  from assms(1) Inr p obtain h where y: "y = Inr (a, h)" and r: "R g h"
    by (auto simp: same_draw_def split: sum.splits)
  show ?thesis unfolding Inr p y using assms(2) [OF r] by simp
qed

lemma optimize_assignments_agree:
  assumes ag: "gen_agree P Q R"
  shows "optimize_assignments P robots jobs seed svc ps gens el cr mr
       = optimize_assignments Q robots jobs seed svc ps gens el cr mr"
proof -
  have s: "R (rnd_seed P seed) (rnd_seed Q seed)"
    using ag unfolding gen_agree_def by blast
  show ?thesis
    unfolding optimize_assignments_def Let_def
    by (intro if_cong refl same_draw_case_eq [where R = R]
        initialize_population_agree [OF ag s] generations_loop_agree [OF ag])
qed

subsection \<open>The optimizer returns\<close>

text \<open>With a generator whose \<open>_randbelow(n)\<close> stays below \<open>n\<close>, no operator raises:
  every range drawn from is non-empty, every index is inside its list and every chromosome
  has one gene per job.\<close>

lemma randrange_returns:
  assumes "randbelow_in_range P" and "0 < stop"
  shows "\<exists>v g'. randrange P stop g = Inr (v, g') \<and> 0 \<le> v \<and> v < stop"
proof -
  obtain k g' where d: "rnd_randbelow P (nat stop) g = (k, g')" by fastforce
  have "fst (rnd_randbelow P (nat stop) g) < nat stop"
    using assms unfolding randbelow_in_range_def by simp
  then have "int k < stop" using d by simp
  then show ?thesis using assms(2) d by (simp add: randrange_def)
qed

lemma randrange2_returns:
  assumes "randbelow_in_range P" and "start < stop"
  shows "\<exists>v g'. randrange2 P start stop g = Inr (v, g') \<and> start \<le> v \<and> v < stop"
proof -
  obtain k g' where d: "rnd_randbelow P (nat (stop - start)) g = (k, g')" by fastforce
  have "fst (rnd_randbelow P (nat (stop - start)) g) < nat (stop - start)"
    using assms unfolding randbelow_in_range_def by simp
  then have "int k < stop - start" using d by simp
  then show ?thesis using assms(2) d by (simp add: randrange2_def Let_def)
qed

lemma draw_genes_returns:
  assumes "randbelow_in_range P" and "0 < stop"
  shows "\<exists>vs g'. draw_genes P stop n g = Inr (vs, g') \<and> length vs = n
           \<and> (\<forall>v \<in> set vs. 0 \<le> v \<and> v < stop)"
proof (induction n arbitrary: g)
  case 0
  then show ?case by simp
next
  case (Suc n)
  obtain v g1 where v: "randrange P stop g = Inr (v, g1)" "0 \<le> v" "v < stop"
    using randrange_returns [OF assms, of g] by blast
  obtain vs g2 where vs: "draw_genes P stop n g1 = Inr (vs, g2)" "length vs = n"
    "\<forall>v \<in> set vs. 0 \<le> v \<and> v < stop"
    using Suc.IH [of g1] by blast
  show ?case using v vs by simp
qed

lemma draw_population_returns:
  assumes "randbelow_in_range P" and "0 < rc"
  shows "\<exists>cs g'. draw_population P rc len n g = Inr (cs, g') \<and> length cs = n
           \<and> (\<forall>c \<in> set cs. length c = len)"
proof (induction n arbitrary: g)
  case 0
  then show ?case by simp
next
  case (Suc n)
  obtain c g1 where c: "draw_genes P rc len g = Inr (c, g1)" "length c = len"
    using draw_genes_returns [OF assms, of len g] by blast
  obtain cs g2 where cs: "draw_population P rc len n g1 = Inr (cs, g2)" "length cs = n"
    "\<forall>c \<in> set cs. length c = len"
    using Suc.IH [of g1] by blast
  show ?case using c cs by simp
qed

lemma tournament_select_returns:
  assumes "randbelow_in_range P" and "pop \<noteq> []" and "length fs = length pop"
  shows "\<exists>c g'. tournament_select P pop fs g = Inr (c, g') \<and> c \<in> set pop"
proof -
  have pos: "0 < int (length pop)" using assms(2) by simp
  obtain vs g1 where vs: "draw_genes P (int (length pop)) 3 g = Inr (vs, g1)" "length vs = 3"
    "\<forall>v \<in> set vs. 0 \<le> v \<and> v < int (length pop)"
    using draw_genes_returns [OF assms(1) pos, of 3 g] by blast
  have ne: "vs \<noteq> []" using vs(2) by auto
  have inr: "\<not> (\<exists>idx \<in> set vs. \<not> (0 \<le> idx \<and> nat idx < length fs))"
    using vs(3) assms(3) by auto
  have "arg_min_list (\<lambda>idx. (fs ! nat idx, idx)) vs \<in> set vs"
    using ne by (rule arg_min_list_in)
  then have bl: "nat (arg_min_list (\<lambda>idx. (fs ! nat idx, idx)) vs) < length pop"
    using vs(3) by auto
  have "tournament_select P pop fs g
      = Inr (pop ! nat (arg_min_list (\<lambda>idx. (fs ! nat idx, idx)) vs), g1)"
    unfolding tournament_select_def Let_def vs(1)
    using inr bl by simp
  then show ?thesis using bl by simp
qed

lemma crossover_returns:
  assumes "randbelow_in_range P" and "length b = length a"
  shows "\<exists>a' b' g'. crossover P a b g = Inr ((a', b'), g')
           \<and> length a' = length a \<and> length b' = length a"
proof (cases "length a \<le> 1")
  case True
  then show ?thesis using assms(2) by (simp add: crossover_def)
next
  case False
  then have "1 < int (length a)" by simp
  from randrange2_returns [OF assms(1) this, of g]
  obtain p g1 where p: "randrange2 P 1 (int (length a)) g = Inr (p, g1)" "1 \<le> p"
    "p < int (length a)" by blast
  then have "nat p \<le> length a" by simp
  then show ?thesis using False p(1) assms(2) by (simp add: crossover_def)
qed

lemma mutate_returns:
  assumes "randbelow_in_range P" and "0 < rc"
  shows "\<exists>c' g'. mutate P c rc rate g = Inr (c', g') \<and> length c' = length c"
proof (induction c arbitrary: g)
  case Nil
  then show ?case by simp
next
  case (Cons gene rest)
  obtain u g1 where u: "rnd_random P g = (u, g1)" by fastforce
  show ?case
  proof (cases "u < rate")
    case True
    obtain v g2 where v: "randrange P rc g1 = Inr (v, g2)"
      using randrange_returns [OF assms, of g1] by blast
    obtain r g3 where r: "mutate P rest rc rate g2 = Inr (r, g3)" "length r = length rest"
      using Cons.IH [of g2] by blast
    show ?thesis using u True v r by simp
  next
    case False
    obtain r g3 where r: "mutate P rest rc rate g1 = Inr (r, g3)" "length r = length rest"
      using Cons.IH [of g1] by blast
    show ?thesis using u False r by simp
  qed
qed

lemma evaluate_chromosome_returns:
  assumes "robots \<noteq> []" and "jobs \<noteq> []" and "length jobs \<le> length chromosome"
  shows "\<exists>fit. evaluate_chromosome chromosome robots jobs svc = Inr fit"
  using evaluate_chromosome_spec [OF assms] by blast

lemma evaluate_population_returns:
  assumes "ga_robots G \<noteq> []" and "ga_jobs G \<noteq> []"
  shows "\<forall>c \<in> set pop. length c = length (ga_jobs G) \<Longrightarrow>
    best_has_length (length (ga_jobs G)) best \<Longrightarrow>
    \<exists>rows best'. evaluate_population G idx pop evaluated best = Inr (rows, best')
      \<and> map row_chromosome rows = map row_chromosome evaluated @ pop
      \<and> best_has_length (length (ga_jobs G)) best'"
proof (induction pop arbitrary: idx evaluated best)
  case Nil
  then show ?case by simp
next
  case (Cons c pop)
  have lc: "length (ga_jobs G) \<le> length c" using Cons.prems(1) by simp
  obtain fit where fit:
    "evaluate_chromosome c (ga_robots G) (ga_jobs G) (ga_service_time_s G) = Inr fit"
    using evaluate_chromosome_returns [OF assms lc] by blast
  define best1 where "best1 =
    (case best of
       None \<Rightarrow> Some (fr_score fit, c, fr_job_scores fit)
     | Some (best_score, best_chromosome, best_job_scores) \<Rightarrow>
         if fr_score fit < best_score
         then Some (fr_score fit, c, fr_job_scores fit)
         else best)"
  have b1: "best_has_length (length (ga_jobs G)) best1"
    using Cons.prems unfolding best1_def best_has_length_def
    by (auto split: option.splits)
  have p: "\<forall>c \<in> set pop. length c = length (ga_jobs G)" using Cons.prems(1) by simp
  from Cons.IH [OF p b1, of "idx + 1" "evaluated @ [(fr_score fit, idx, c, fr_job_scores fit)]"]
  obtain rows best' where r:
    "evaluate_population G (idx + 1) pop
       (evaluated @ [(fr_score fit, idx, c, fr_job_scores fit)]) best1 = Inr (rows, best')"
    "map row_chromosome rows =
       map row_chromosome (evaluated @ [(fr_score fit, idx, c, fr_job_scores fit)]) @ pop"
    "best_has_length (length (ga_jobs G)) best'"
    by blast
  have "evaluate_population G idx (c # pop) evaluated best = Inr (rows, best')"
    using fit r(1) unfolding best1_def by simp
  moreover have "map row_chromosome rows = map row_chromosome evaluated @ c # pop"
    using r(2) by (simp add: row_chromosome_def)
  ultimately show ?case using r(3) by blast
qed

lemma fill_population_returns:
  assumes rb: "randbelow_in_range P" and rc: "ga_robots G \<noteq> []"
    and sp: "\<forall>c \<in> set sp. length c = n" and fs: "length fs = length sp"
    and ne: "0 < ga_population_size G \<longrightarrow> sp \<noteq> []"
  shows "\<forall>c \<in> set np. length c = n \<Longrightarrow>
    \<exists>np' g'. fill_population P G sp fs np g = Inr (np', g')
      \<and> (\<forall>c \<in> set np'. length c = n) \<and> ga_population_size G \<le> int (length np')"
proof (induction "nat (ga_population_size G - int (length np))" arbitrary: np g
    rule: less_induct)
  case less
  show ?case
  proof (cases "int (length np) < ga_population_size G")
    case False
    then show ?thesis
      unfolding fill_population.simps [of P G sp fs np g] using less.prems by simp
  next
    case True
    then have spne: "sp \<noteq> []" using ne by auto
    have rcp: "0 < int (length (ga_robots G))" using rc by simp
    obtain pa g1 where pa: "tournament_select P sp fs g = Inr (pa, g1)" "pa \<in> set sp"
      using tournament_select_returns [OF rb spne fs, of g] by blast
    obtain pb g2 where pb: "tournament_select P sp fs g1 = Inr (pb, g2)" "pb \<in> set sp"
      using tournament_select_returns [OF rb spne fs, of g1] by blast
    have lp: "length pa = n" "length pb = n" using pa(2) pb(2) sp by auto
    obtain u g3 where u: "rnd_random P g2 = (u, g3)" by fastforce
    have "\<exists>ca cb g4. (if u < ga_crossover_rate G then crossover P pa pb g3
               else Inr ((pa, pb), g3)) = Inr ((ca, cb), g4) \<and> length ca = n \<and> length cb = n"
    proof (cases "u < ga_crossover_rate G")
      case True
      have "length pb = length pa" using lp by simp
      from crossover_returns [OF rb this, of g3] True lp show ?thesis by auto
    next
      case False
      then show ?thesis using lp by simp
    qed
    then obtain ca cb g4 where cr: "(if u < ga_crossover_rate G then crossover P pa pb g3
               else Inr ((pa, pb), g3)) = Inr ((ca, cb), g4)" "length ca = n" "length cb = n"
      by blast
    obtain ma g5 where ma:
      "mutate P ca (int (length (ga_robots G))) (ga_mutation_rate G) g4 = Inr (ma, g5)"
      "length ma = length ca"
      using mutate_returns [OF rb rcp, of ca "ga_mutation_rate G" g4] by blast
    show ?thesis
    proof (cases "int (length (np @ [ma])) < ga_population_size G")
      case more: True
      obtain mb g6 where mb:
        "mutate P cb (int (length (ga_robots G))) (ga_mutation_rate G) g5 = Inr (mb, g6)"
        "length mb = length cb"
        using mutate_returns [OF rb rcp, of cb "ga_mutation_rate G" g5] by blast
      have m: "nat (ga_population_size G - int (length (np @ [ma, mb])))
             < nat (ga_population_size G - int (length np))"
        using True by simp
      have a: "\<forall>c \<in> set (np @ [ma, mb]). length c = n"
        using less.prems ma(2) mb(2) cr(2,3) by simp
      from less.hyps [OF m a, of g6]
      obtain np' g' where r: "fill_population P G sp fs (np @ [ma, mb]) g6 = Inr (np', g')"
        "\<forall>c \<in> set np'. length c = n" "ga_population_size G \<le> int (length np')" by blast
      have "fill_population P G sp fs np g = Inr (np', g')"
        unfolding fill_population.simps [of P G sp fs np g]
        using True pa(1) pb(1) u cr(1) ma(1) more mb(1) r(1) by simp
      then show ?thesis using r(2,3) by blast
    next
      case full: False
      have m: "nat (ga_population_size G - int (length (np @ [ma])))
             < nat (ga_population_size G - int (length np))"
        using True by simp
      have a: "\<forall>c \<in> set (np @ [ma]). length c = n"
        using less.prems ma(2) cr(2) by simp
      from less.hyps [OF m a, of g5]
      obtain np' g' where r: "fill_population P G sp fs (np @ [ma]) g5 = Inr (np', g')"
        "\<forall>c \<in> set np'. length c = n" "ga_population_size G \<le> int (length np')" by blast
      have "fill_population P G sp fs np g = Inr (np', g')"
        unfolding fill_population.simps [of P G sp fs np g]
        using True pa(1) pb(1) u cr(1) ma(1) full r(1) by simp
      then show ?thesis using r(2,3) by blast
    qed
  qed
qed

lemma row_chromosome_eq:
  "(\<lambda>(score, idx, chromosome, scores). chromosome) = row_chromosome"
  by (auto simp: row_chromosome_def fun_eq_iff)

lemma set_py_prefix: "set (py_prefix k xs) \<subseteq> set xs"
  by (auto simp: py_prefix_def dest: in_set_takeD)

lemma generation_returns:
  assumes rb: "randbelow_in_range P" and rc: "ga_robots G \<noteq> []" and jb: "ga_jobs G \<noteq> []"
    and pl: "\<forall>c \<in> set pop. length c = length (ga_jobs G)"
    and pn: "0 < ga_population_size G \<longrightarrow> pop \<noteq> []"
    and bl: "best_has_length (length (ga_jobs G)) best"
  shows "\<exists>pop' best' g'. generation P G pop best g = Inr ((pop', best'), g')
    \<and> (\<forall>c \<in> set pop'. length c = length (ga_jobs G))
    \<and> (0 < ga_population_size G \<longrightarrow> pop' \<noteq> [])
    \<and> best_has_length (length (ga_jobs G)) best'"
proof -
  from evaluate_population_returns [OF rc jb pl bl, of 0 "[]"]
  obtain rows best' where ev: "evaluate_population G 0 pop [] best = Inr (rows, best')"
    "map row_chromosome rows = pop" "best_has_length (length (ga_jobs G)) best'"
    by auto
  define srows where "srows = sort_key (\<lambda>(score, idx, chromosome, scores). (score, idx)) rows"
  define sp where "sp = map row_chromosome srows"
  define fs where "fs = map (\<lambda>(score, idx, chromosome, scores). score) srows"
  define np where "np = map row_chromosome (py_prefix (ga_elite_size G) srows)"
  have "set sp = row_chromosome ` set rows" by (simp add: sp_def srows_def)
  also have "\<dots> = set pop" using ev(2) by (metis set_map)
  finally have ssp: "set sp = set pop" .
  have spl: "\<forall>c \<in> set sp. length c = length (ga_jobs G)" using ssp pl by simp
  have fsl: "length fs = length sp" by (simp add: fs_def sp_def)
  have spn: "0 < ga_population_size G \<longrightarrow> sp \<noteq> []"
    using pn ssp by (metis set_empty)
  have "set np \<subseteq> set sp"
    unfolding np_def sp_def using set_py_prefix [of "ga_elite_size G" srows] by auto
  then have npl: "\<forall>c \<in> set np. length c = length (ga_jobs G)" using spl by blast
  from fill_population_returns [OF rb rc spl fsl spn npl, of g]
  obtain pop' g' where f: "fill_population P G sp fs np g = Inr (pop', g')"
    "\<forall>c \<in> set pop'. length c = length (ga_jobs G)"
    "ga_population_size G \<le> int (length pop')" by blast
  have "generation P G pop best g = Inr ((pop', best'), g')"
    unfolding generation_def ev(1) Let_def row_chromosome_eq
    using f(1) by (simp add: srows_def sp_def fs_def np_def)
  moreover have "0 < ga_population_size G \<longrightarrow> pop' \<noteq> []" using f(3) by auto
  ultimately show ?thesis using f(2) ev(3) by blast
qed

lemma generations_loop_returns:
  assumes rb: "randbelow_in_range P" and rc: "ga_robots G \<noteq> []" and jb: "ga_jobs G \<noteq> []"
  shows "\<forall>c \<in> set pop. length c = length (ga_jobs G) \<Longrightarrow>
    0 < ga_population_size G \<longrightarrow> pop \<noteq> [] \<Longrightarrow>
    best_has_length (length (ga_jobs G)) best \<Longrightarrow>
    \<exists>pop' best' g'. generations_loop P G n pop best g = Inr ((pop', best'), g')
      \<and> best_has_length (length (ga_jobs G)) best'"
proof (induction n arbitrary: pop best g)
  case 0
  then show ?case by simp
next
  case (Suc n)
  from generation_returns [OF rb rc jb Suc.prems, of g]
  obtain pop1 best1 g1 where s: "generation P G pop best g = Inr ((pop1, best1), g1)"
    "\<forall>c \<in> set pop1. length c = length (ga_jobs G)"
    "0 < ga_population_size G \<longrightarrow> pop1 \<noteq> []"
    "best_has_length (length (ga_jobs G)) best1" by blast
  from Suc.IH [OF s(2,3,4), of g1] show ?case using s(1) by simp
qed

lemma decode_returns:
  "idx + length jobs \<le> length best_chromosome \<Longrightarrow>
   \<exists>assignments. decode robots best_chromosome scores idx jobs = Inr assignments"
proof (induction jobs arbitrary: idx)
  case Nil
  then show ?case by simp
next
  case (Cons job jobs)
  have "Suc idx + length jobs \<le> length best_chromosome" using Cons.prems by simp
  from Cons.IH [OF this] obtain a where
    "decode robots best_chromosome scores (Suc idx) jobs = Inr a" by blast
  then show ?case using Cons.prems by (simp add: Let_def)
qed

lemma optimize_assignments_returns:
  assumes rb: "randbelow_in_range P"
  shows "\<exists>assignments meta.
    optimize_assignments P robots jobs seed svc ps gens el cr mr = Inr (assignments, meta)"
proof (cases "sorted_jobs jobs = [] \<or> sort_key or_id robots = []")
  case True
  then show ?thesis by (simp add: optimize_assignments_def Let_def)
next
  case False
  define orobots where "orobots = sort_key or_id robots"
  define ojobs where "ojobs = sorted_jobs jobs"
  define G where "G = \<lparr>ga_robots = orobots, ga_jobs = ojobs, ga_service_time_s = svc,
    ga_population_size = ps, ga_elite_size = el, ga_crossover_rate = cr,
    ga_mutation_rate = mr\<rparr>"
  have ne: "orobots \<noteq> []" "ojobs \<noteq> []" using False by (simp_all add: orobots_def ojobs_def)
  have g: "ga_robots G = orobots" "ga_jobs G = ojobs" "ga_population_size G = ps"
    by (simp_all add: G_def)
  have rcp: "0 < int (length orobots)" using ne(1) by simp
  from draw_population_returns [OF rb rcp, of "length ojobs" "nat ps" "rnd_seed P seed"]
  obtain pop g1 where ip: "draw_population P (int (length orobots)) (length ojobs) (nat ps)
      (rnd_seed P seed) = Inr (pop, g1)" "length pop = nat ps"
    "\<forall>c \<in> set pop. length c = length ojobs" by blast
  have init: "initialize_population P ps (length ojobs) (int (length orobots)) (rnd_seed P seed)
      = Inr (pop, g1)"
    using ne(2) ip(1) by (simp add: initialize_population_def)
  have pn: "0 < ga_population_size G \<longrightarrow> pop \<noteq> []" using ip(2) g(3) by auto
  have r1: "ga_robots G \<noteq> []" and j1: "ga_jobs G \<noteq> []" using ne g by simp_all
  have pl: "\<forall>c \<in> set pop. length c = length (ga_jobs G)" using ip(3) g(2) by simp
  have b0: "best_has_length (length (ga_jobs G)) None" by (simp add: best_has_length_def)
  from generations_loop_returns [OF rb r1 j1 pl pn b0, of "nat gens" g1]
  obtain pop' best g2 where gl:
    "generations_loop P G (nat gens) pop None g1 = Inr ((pop', best), g2)"
    "best_has_length (length ojobs) best" using g(2) by auto
  have "\<exists>s c js. (case best of
                   Some b \<Rightarrow> Inr b
                 | None \<Rightarrow>
                     (case evaluate_chromosome (map (\<lambda>_. 0) ojobs) orobots ojobs svc of
                        Inl err \<Rightarrow> Inl err
                      | Inr best_fit \<Rightarrow>
                          Inr (fr_score best_fit, map (\<lambda>_. 0) ojobs, fr_job_scores best_fit)))
             = Inr (s, c, js) \<and> length c = length ojobs"
  proof (cases best)
    case None
    have "length ojobs \<le> length (map (\<lambda>_. 0::int) ojobs)" by simp
    from evaluate_chromosome_returns [OF ne this, of svc] None show ?thesis by auto
  next
    case (Some b)
    then show ?thesis using gl(2) by (cases b) (auto simp: best_has_length_def)
  qed
  then obtain s c js where b: "(case best of
                   Some b \<Rightarrow> Inr b
                 | None \<Rightarrow>
                     (case evaluate_chromosome (map (\<lambda>_. 0) ojobs) orobots ojobs svc of
                        Inl err \<Rightarrow> Inl err
                      | Inr best_fit \<Rightarrow>
                          Inr (fr_score best_fit, map (\<lambda>_. 0) ojobs, fr_job_scores best_fit)))
             = Inr (s, c, js)" "length c = length ojobs" by blast
  have "0 + length ojobs \<le> length c" using b(2) by simp
  from decode_returns [OF this] obtain a where d: "decode orobots c js 0 ojobs = Inr a"
    by blast
  show ?thesis
    unfolding optimize_assignments_def Let_def orobots_def [symmetric] ojobs_def [symmetric]
      G_def [symmetric]
    using ne init gl(1) b(1) d by simp
qed

lemma lcg_in_range: "randbelow_in_range lcg"
  by (simp add: randbelow_in_range_def lcg_def)

subsection \<open>Optimizer: two calls with identical arguments\<close>

lemma lcg_agrees_with_itself: "gen_agree lcg lcg (=)"
  by (simp add: gen_agree_def)

lemma lcg_agrees_with_shifted: "gen_agree lcg lcg_shifted (\<lambda>g h. h = g + 1)"
  by (simp add: gen_agree_def lcg_shifted_def)

text \<open>
  Claim C1: two calls of optimize_assignments with identical arguments return identical
  assignment lists and identical meta dictionaries. The generator is created from the
  seed inside the call and nothing else is read, so the statement is proved for two calls
  that each draw from a generator of their own: whenever the two generators agree draw by
  draw from every seed (as two instances of the same \<open>random.Random\<close> do), the two
  calls have the same outcome; and with a generator whose \<open>_randbelow(n)\<close> stays below
  \<open>n\<close> that outcome is a returned pair of assignments and meta, not an exception.
\<close>

theorem optimize_assignments_deterministic:
  assumes "gen_agree P Q R"
  shows "optimize_assignments P robots jobs seed service_time_s population_size generations
           elite_size crossover_rate mutation_rate
       = optimize_assignments Q robots jobs seed service_time_s population_size generations
           elite_size crossover_rate mutation_rate
    \<and> (randbelow_in_range P \<longrightarrow>
         (\<exists>assignments meta.
            optimize_assignments P robots jobs seed service_time_s population_size generations
              elite_size crossover_rate mutation_rate = Inr (assignments, meta)
          \<and> optimize_assignments Q robots jobs seed service_time_s population_size generations
              elite_size crossover_rate mutation_rate = Inr (assignments, meta)))"
proof -
  have e: "optimize_assignments P robots jobs seed service_time_s population_size generations
           elite_size crossover_rate mutation_rate
       = optimize_assignments Q robots jobs seed service_time_s population_size generations
           elite_size crossover_rate mutation_rate"
    using assms by (rule optimize_assignments_agree)
  show ?thesis
    using e optimize_assignments_returns [of P robots jobs seed service_time_s population_size
        generations elite_size crossover_rate mutation_rate]
    by auto
qed

theorem optimize_assignments_deterministic_witness:
  "gen_agree lcg lcg (=)
   \<and> randbelow_in_range lcg
   \<and> (\<exists>assignments meta.
        optimize_assignments lcg det_robots det_jobs 42 5 32 30 2 (9 / 10) (1 / 10)
          = Inr (assignments, meta))
   \<and> gen_agree lcg lcg_shifted (\<lambda>g h. h = g + 1)
   \<and> optimize_assignments lcg det_robots det_jobs 42 5 32 30 2 (9 / 10) (1 / 10)
     = optimize_assignments lcg_shifted det_robots det_jobs 42 5 32 30 2 (9 / 10) (1 / 10)"
  using optimize_assignments_deterministic [OF lcg_agrees_with_itself,
      of det_robots det_jobs 42 5 32 30 2 "9 / 10" "1 / 10"]
    optimize_assignments_deterministic [OF lcg_agrees_with_shifted,
      of det_robots det_jobs 42 5 32 30 2 "9 / 10" "1 / 10"]
    lcg_agrees_with_itself lcg_agrees_with_shifted lcg_in_range
  by blast

end
